theory Spec2Isabelle
  imports Complex_Main "HOL-Library.Sublist"
begin

section \<open>N-HiTS: a shallow embedding of \<^verbatim>\<open>src/models/nhits/nhits.py\<close>\<close>

text \<open>
  Conventions of the embedding.
  \<^item> Sizes (window lengths, widths, kernel sizes, block counts) are natural numbers.
    Python's \<^verbatim>\<open>math.floor(a/b)\<close> on such sizes is \<open>a div b\<close> (exact below \<open>2^53\<close>), and
    raises \<^verbatim>\<open>ZeroDivisionError\<close> for \<open>b = 0\<close>.
  \<^item> Every exception of the source is a value \<open>Inl e\<close> of the result type \<open>error + 'a\<close>.
  \<^item> A 2-D tensor of shape \<open>(B, L)\<close> is the list of its \<open>B\<close> rows; a row is a list of
    length \<open>L\<close>. (The width of a tensor with no row is not represented.)
  \<^item> Learned weights and random initial values are not represented: a layer is the
    description its constructor stores, and its forward pass is followed on the
    width of the tensor only.
\<close>

subsection \<open>Errors\<close>

datatype assertion = Pooling_mode | Activation_name | Initialization_name | Block_type
  | Interpolation_mode

datatype error = AssertionError assertion | TypeError | ZeroDivisionError | IndexError
  | ValueError | RuntimeError | AttributeError | UnboundLocalError

definition ebind :: "error + 'a \<Rightarrow> ('a \<Rightarrow> error + 'b) \<Rightarrow> error + 'b" where
  "ebind m f = (case m of Inl e \<Rightarrow> Inl e | Inr x \<Rightarrow> f x)"

text \<open>Python's \<^verbatim>\<open>xs[i]\<close> for a non-negative index.\<close>

definition get :: "'a list \<Rightarrow> nat \<Rightarrow> error + 'a" where
  "get xs i = (if i < length xs then Inr (xs ! i) else Inl IndexError)"

text \<open>\<^verbatim>\<open>math.floor(a/b)\<close> and \<^verbatim>\<open>a // b\<close> on sizes.\<close>

definition floor_div :: "nat \<Rightarrow> nat \<Rightarrow> error + nat" where
  "floor_div a b = (if b = 0 then Inl ZeroDivisionError else Inr (a div b))"

subsection \<open>Modules\<close>

text \<open>\<^verbatim>\<open>activ = getattr(nn, activation)()\<close> or \<^verbatim>\<open>Sine(30.0)\<close>.\<close>

datatype activ = NN string | Sine real

text \<open>The modules of \<^verbatim>\<open>torch.nn\<close> that the encoders are built from, with the arguments
  the source passes.\<close>

datatype nn = Dropout real | Linear nat nat | BatchNorm1d nat | Act activ
  | Conv1d nat nat | ConvTranspose1d nat nat | MaxPool1d nat nat

text \<open>The entries of a block's layer list: the three hidden-feature encoders (each with
  the attributes its \<^verbatim>\<open>__init__\<close> stores) and a bare \<^verbatim>\<open>nn.MaxPool1d\<close>.\<close>

datatype layer =
    HiddenFeaturesLinearEncoder "nn list"
  | HiddenFeaturesDownSampleEncoder nn nn "activ option"
  | HiddenFeaturesUpsampleEncoder nn nn "activ option"
  | Module nn

definition HiddenFeaturesLinearEncoder_init ::
  "nat \<Rightarrow> nat \<Rightarrow> activ option \<Rightarrow> bool \<Rightarrow> real \<Rightarrow> error + layer" where
  "HiddenFeaturesLinearEncoder_init in_features out_features activ batch_normalization dropout_prob =
     (if dropout_prob > 0 \<and> dropout_prob > 1 then Inl ValueError
      else Inr (HiddenFeaturesLinearEncoder
        ((if dropout_prob > 0 then [Dropout dropout_prob] else [])
         @ [Linear in_features out_features]
         @ (if batch_normalization then [BatchNorm1d out_features] else [])
         @ (case activ of None \<Rightarrow> [] | Some a \<Rightarrow> [Act a]))))"

definition HiddenFeaturesDownSampleEncoder_init ::
  "nat \<Rightarrow> nat \<Rightarrow> nat \<Rightarrow> activ option \<Rightarrow> layer" where
  "HiddenFeaturesDownSampleEncoder_init kernel_size stride num_features activ =
     HiddenFeaturesDownSampleEncoder (Conv1d kernel_size stride) (BatchNorm1d num_features) activ"

definition HiddenFeaturesUpsampleEncoder_init ::
  "nat \<Rightarrow> nat \<Rightarrow> nat \<Rightarrow> activ option \<Rightarrow> layer" where
  "HiddenFeaturesUpsampleEncoder_init kernel_size stride num_features activ =
     HiddenFeaturesUpsampleEncoder (ConvTranspose1d kernel_size stride) (BatchNorm1d num_features) activ"

subsection \<open>The width a module gives its output\<close>

text \<open>
  The shape rules of \<^verbatim>\<open>torch.nn\<close> on a \<open>(batch, W)\<close> input, followed along the last axis:
  a linear layer refuses a width other than its own; a batch normalisation in training
  mode (the mode in which modules are constructed) refuses a batch of one row with a
  \<^verbatim>\<open>ValueError\<close>, and in either mode a width other than its own; a convolution or a
  pooling of kernel \<open>k\<close> and stride \<open>s\<close> maps a width \<open>W \<ge> k\<close> to \<open>(W - k) div s + 1\<close>; a
  transposed convolution maps \<open>W\<close> to \<open>(W - 1) * s + k\<close>.
\<close>

fun nn_width :: "bool \<Rightarrow> nat \<Rightarrow> nn \<Rightarrow> nat \<Rightarrow> error + nat" where
  "nn_width training batch (Dropout p) w = Inr w"
| "nn_width training batch (Linear i out) w = (if w = i then Inr out else Inl RuntimeError)"
| "nn_width training batch (BatchNorm1d nf) w =
     (if training \<and> batch = 1 then Inl ValueError
      else if w = nf then Inr w else Inl RuntimeError)"
| "nn_width training batch (Act a) w = Inr w"
| "nn_width training batch (Conv1d k s) w =
     (if k = 0 \<or> s = 0 \<or> w < k then Inl RuntimeError else Inr ((w - k) div s + 1))"
| "nn_width training batch (ConvTranspose1d k s) w =
     (if k = 0 \<or> s = 0 \<or> w = 0 then Inl RuntimeError else Inr ((w - 1) * s + k))"
| "nn_width training batch (MaxPool1d k s) w =
     (if k = 0 \<or> s = 0 \<or> w < k then Inl RuntimeError else Inr ((w - k) div s + 1))"

fun sequential_width :: "bool \<Rightarrow> nat \<Rightarrow> nn list \<Rightarrow> nat \<Rightarrow> error + nat" where
  "sequential_width training batch [] w = Inr w"
| "sequential_width training batch (m # ms) w =
     ebind (nn_width training batch m w) (sequential_width training batch ms)"

text \<open>The \<^verbatim>\<open>forward\<close> of each encoder: the convolutional encoders apply their batch
  normalisation (and the activation) only when \<^verbatim>\<open>self.activ != None\<close>.\<close>

fun layer_width :: "bool \<Rightarrow> nat \<Rightarrow> layer \<Rightarrow> nat \<Rightarrow> error + nat" where
  "layer_width training batch (HiddenFeaturesLinearEncoder encoder) w =
     sequential_width training batch encoder w"
| "layer_width training batch (HiddenFeaturesDownSampleEncoder ConvLayer BatchNorm activ) w =
     ebind (nn_width training batch ConvLayer w)
       (\<lambda>w'. case activ of None \<Rightarrow> Inr w' | Some a \<Rightarrow> nn_width training batch BatchNorm w')"
| "layer_width training batch (HiddenFeaturesUpsampleEncoder ConvLayer BatchNorm activ) w =
     ebind (nn_width training batch ConvLayer w)
       (\<lambda>w'. case activ of None \<Rightarrow> Inr w' | Some a \<Rightarrow> nn_width training batch BatchNorm w')"
| "layer_width training batch (Module m) w = nn_width training batch m w"

text \<open>\<^verbatim>\<open>nn.Sequential(*layers)\<close> on a width.\<close>

fun chain_width :: "bool \<Rightarrow> nat \<Rightarrow> layer list \<Rightarrow> nat \<Rightarrow> error + nat" where
  "chain_width training batch [] w = Inr w"
| "chain_width training batch (l # ls) w =
     ebind (layer_width training batch l w) (chain_width training batch ls)"

subsection \<open>\<^verbatim>\<open>_NHITSBlock.__init__\<close>: the hidden layers (lines 350-413)\<close>

text \<open>
  One turn of \<^verbatim>\<open>for i in range(n_layers)\<close>. The state is the list
  \<^verbatim>\<open>n_theta_hidden\<close>, which the strided cases overwrite at \<open>i + 1\<close>, and the list
  \<^verbatim>\<open>hidden_layers\<close>. In \<^verbatim>\<open>conv\<close> mode two equal widths append nothing; a layer
  mode that is neither \<^verbatim>\<open>conv\<close> nor \<^verbatim>\<open>linear\<close> appends nothing and reads nothing.
\<close>

definition hidden_layer_step ::
  "string \<Rightarrow> activ \<Rightarrow> bool \<Rightarrow> real \<Rightarrow> nat \<Rightarrow> nat list \<times> layer list
     \<Rightarrow> error + (nat list \<times> layer list)" where
  "hidden_layer_step layer_mode activ batch_normalization dropout_prob i st =
     (case st of (n_theta_hidden, hidden_layers) \<Rightarrow>
      if layer_mode = ''conv'' then
        ebind (get n_theta_hidden i) (\<lambda>a.
        ebind (get n_theta_hidden (i + 1)) (\<lambda>b.
          if a > b then
            ebind (floor_div a b) (\<lambda>q.
              if q \<ge> 2 then
                (let kernel = q; stride = kernel;
                     n_theta_hidden = n_theta_hidden[i + 1 := (a - kernel) div stride + 1]
                 in Inr (n_theta_hidden, hidden_layers @
                      [HiddenFeaturesDownSampleEncoder_init kernel stride
                         (n_theta_hidden ! (i + 1)) (Some activ)]))
              else
                (let stride = 1; kernel = a - b + 1
                 in Inr (n_theta_hidden, hidden_layers @
                      [HiddenFeaturesDownSampleEncoder_init kernel stride b (Some activ)])))
          else if a < b then
            ebind (floor_div b a) (\<lambda>q.
              if q \<ge> 2 then
                (let kernel = q; stride = kernel;
                     n_theta_hidden = n_theta_hidden[i + 1 := kernel * a]
                 in Inr (n_theta_hidden, hidden_layers @
                      [HiddenFeaturesUpsampleEncoder_init kernel stride
                         (n_theta_hidden ! (i + 1)) (Some activ)]))
              else
                (let stride = 1; kernel = b - a + 1
                 in Inr (n_theta_hidden, hidden_layers @
                      [HiddenFeaturesUpsampleEncoder_init kernel stride b (Some activ)])))
          else Inr (n_theta_hidden, hidden_layers)))
      else if layer_mode = ''linear'' then
        ebind (get n_theta_hidden i) (\<lambda>a.
        ebind (get n_theta_hidden (i + 1)) (\<lambda>b.
        ebind (HiddenFeaturesLinearEncoder_init a b (Some activ) batch_normalization dropout_prob)
          (\<lambda>l. Inr (n_theta_hidden, hidden_layers @ [l]))))
      else Inr (n_theta_hidden, hidden_layers))"

fun hidden_layers_loop ::
  "string \<Rightarrow> activ \<Rightarrow> bool \<Rightarrow> real \<Rightarrow> nat list \<Rightarrow> nat list \<times> layer list
     \<Rightarrow> error + (nat list \<times> layer list)" where
  "hidden_layers_loop layer_mode activ batch_normalization dropout_prob [] st = Inr st"
| "hidden_layers_loop layer_mode activ batch_normalization dropout_prob (i # is) st =
     ebind (hidden_layer_step layer_mode activ batch_normalization dropout_prob i st)
       (hidden_layers_loop layer_mode activ batch_normalization dropout_prob is)"

subsection \<open>\<^verbatim>\<open>_NHITSBlock.__init__\<close>: the output layer (lines 425-551)\<close>

text \<open>\<open>h\<close> is \<^verbatim>\<open>n_theta_hidden[-1]\<close>. An output-layer name outside the three leaves
  \<^verbatim>\<open>self.output_layer\<close> unset, and \<^verbatim>\<open>hidden_layers + self.output_layer\<close> raises.\<close>

definition make_output_layer :: "string \<Rightarrow> nat \<Rightarrow> nat \<Rightarrow> activ \<Rightarrow> error + layer list" where
  "make_output_layer output_layer h n_theta activ =
     (if output_layer = ''linear'' then
        ebind (HiddenFeaturesLinearEncoder_init h n_theta None False 0) (\<lambda>l. Inr [l])
      else if output_layer = ''conv'' then
        (if h > n_theta then
           ebind (floor_div h n_theta) (\<lambda>q.
             if q \<ge> 2 then
               (let kernel = q; stride = kernel;
                    n_theta_adjusted = (h - kernel) div stride + 1
                in if n_theta_adjusted \<noteq> n_theta then
                     ebind (HiddenFeaturesLinearEncoder_init n_theta_adjusted n_theta None False 0)
                       (\<lambda>l. Inr [HiddenFeaturesDownSampleEncoder_init kernel stride
                                   n_theta_adjusted (Some activ), l])
                   else Inr [HiddenFeaturesDownSampleEncoder_init kernel stride
                               n_theta_adjusted None])
             else
               (let stride = 1; kernel = h - n_theta + 1
                in Inr [HiddenFeaturesDownSampleEncoder_init kernel stride n_theta None]))
         else if h < n_theta then
           ebind (floor_div n_theta h) (\<lambda>q.
             if q \<ge> 2 then
               (let kernel = q; stride = kernel;
                    n_theta_adjusted = kernel * h
                in if n_theta_adjusted \<noteq> n_theta then
                     ebind (HiddenFeaturesLinearEncoder_init n_theta_adjusted n_theta None False 0)
                       (\<lambda>l. Inr [HiddenFeaturesUpsampleEncoder_init kernel stride
                                   n_theta_adjusted (Some activ), l])
                   else Inr [HiddenFeaturesUpsampleEncoder_init kernel stride
                               n_theta_adjusted None])
             else
               (let stride = 1; kernel = n_theta - h + 1
                in Inr [HiddenFeaturesUpsampleEncoder_init kernel stride n_theta None]))
         else
           ebind (HiddenFeaturesLinearEncoder_init h n_theta None False 0) (\<lambda>l. Inr [l]))
      else if output_layer = ''max'' then
        (if h > n_theta then
           ebind (floor_div h n_theta) (\<lambda>q.
             if q \<ge> 2 then
               (let kernel = q; stride = kernel;
                    n_theta_adjusted = (h - kernel) div stride + 1
                in if n_theta_adjusted \<noteq> n_theta then
                     ebind (HiddenFeaturesLinearEncoder_init n_theta_adjusted n_theta None False 0)
                       (\<lambda>l. Inr [Module (MaxPool1d kernel stride), l])
                   else Inr [Module (MaxPool1d kernel stride)])
             else
               (let stride = 1; kernel = h - n_theta + 1
                in Inr [Module (MaxPool1d kernel stride)]))
         else
           ebind (HiddenFeaturesLinearEncoder_init h n_theta None False 0) (\<lambda>l. Inr [l]))
      else Inl AttributeError)"

subsection \<open>\<^verbatim>\<open>IdentityBasis.__init__\<close>\<close>

record IdentityBasis =
  basis_forecast_size :: nat
  basis_backcast_size :: nat
  basis_interpolation_mode :: string

definition IdentityBasis_init :: "nat \<Rightarrow> nat \<Rightarrow> string \<Rightarrow> error + IdentityBasis" where
  "IdentityBasis_init backcast_size forecast_size interpolation_mode =
     (if interpolation_mode \<in> set [''linear'', ''nearest'']
         \<or> sublist ''cubic'' interpolation_mode
      then Inr \<lparr>basis_forecast_size = forecast_size, basis_backcast_size = backcast_size,
                basis_interpolation_mode = interpolation_mode\<rparr>
      else Inl (AssertionError Interpolation_mode))"

subsection \<open>\<^verbatim>\<open>_NHITSBlock.__init__\<close>\<close>

definition ACTIVATIONS :: "string list" where
  "ACTIVATIONS = [''ReLU'', ''Softplus'', ''Tanh'', ''SELU'', ''LeakyReLU'', ''PReLU'',
     ''Sigmoid'', ''Sin'']"

datatype pooling = Pool nn | StochasticPool1D nat nat

record NHITSBlock =
  blk_n_time_in :: nat
  blk_n_time_out :: nat
  blk_n_s :: nat
  blk_n_s_hidden :: nat
  blk_n_x :: nat
  blk_n_pool_kernel_size :: nat
  blk_layer_mode :: string
  blk_pooling_mode :: string
  blk_batch_normalization :: bool
  blk_dropout_prob :: real
  blk_pooling_layer :: "pooling option"
  blk_output_layer :: "layer list"
  blk_static_encoder :: "nn list option"
  blk_layers :: "layer list"
  blk_basis :: IdentityBasis

text \<open>\<^verbatim>\<open>int(np.ceil(n_time_in/n_pool_kernel_size))\<close>, for a kernel size that is not zero.\<close>

definition n_time_in_pooled :: "nat \<Rightarrow> nat \<Rightarrow> nat" where
  "n_time_in_pooled n_time_in n_pool_kernel_size =
     nat \<lceil>real n_time_in / real n_pool_kernel_size\<rceil>"

text \<open>
  The constructor, in the order of the source: the assertion on the pooling mode, the
  pooled width (a division), the assertion on the activation, the pooling layer, the
  hidden layers, the output layer. With pooling mode \<^verbatim>\<open>conv\<close> the source calls
  \<^verbatim>\<open>_HiddenFeaturesDownSampleEncoder(kernel_size=.., stride=..)\<close> without its two other
  required arguments, which raises \<^verbatim>\<open>TypeError\<close>.
\<close>

definition NHITSBlock_init ::
  "nat \<Rightarrow> nat \<Rightarrow> nat \<Rightarrow> nat \<Rightarrow> nat \<Rightarrow> nat \<Rightarrow> nat list \<Rightarrow> nat \<Rightarrow> nat \<Rightarrow> string \<Rightarrow> string \<Rightarrow> string
     \<Rightarrow> IdentityBasis \<Rightarrow> nat \<Rightarrow> bool \<Rightarrow> real \<Rightarrow> string \<Rightarrow> error + NHITSBlock" where
  "NHITSBlock_init n_time_in n_time_out n_x n_s n_s_hidden n_theta n_theta_hidden
       n_pool_kernel_size n_freq_downsample pooling_mode layer_mode output_layer basis
       n_layers batch_normalization dropout_prob activation =
     (if pooling_mode \<notin> set [''max'', ''conv'', ''stochastic'', ''none'']
      then Inl (AssertionError Pooling_mode)
      else if n_pool_kernel_size = 0 then Inl ZeroDivisionError
      else
        (let n_s_hidden = (if n_s = 0 then 0 else n_s_hidden);
             n_theta_hidden =
               [n_time_in_pooled n_time_in n_pool_kernel_size + (n_time_in + n_time_out) * n_x
                  + n_s_hidden] @ n_theta_hidden
         in if activation \<notin> set ACTIVATIONS then Inl (AssertionError Activation_name)
            else
              (let activ = (if activation \<noteq> ''Sin'' then NN activation else Sine 30);
                   pooling_layer =
                     (if pooling_mode = ''max''
                      then Some (Pool (MaxPool1d n_pool_kernel_size n_pool_kernel_size))
                      else if pooling_mode = ''stochastic''
                      then Some (StochasticPool1D n_pool_kernel_size n_pool_kernel_size)
                      else None)
               in if pooling_mode = ''conv'' then Inl TypeError
                  else
                    ebind (hidden_layers_loop layer_mode activ batch_normalization dropout_prob
                             [0..<n_layers] (n_theta_hidden, []))
                      (\<lambda>(n_theta_hidden, hidden_layers).
                    ebind (make_output_layer output_layer (last n_theta_hidden) n_theta activ)
                      (\<lambda>output_layer.
                        Inr \<lparr>blk_n_time_in = n_time_in, blk_n_time_out = n_time_out,
                             blk_n_s = n_s, blk_n_s_hidden = n_s_hidden, blk_n_x = n_x,
                             blk_n_pool_kernel_size = n_pool_kernel_size,
                             blk_layer_mode = layer_mode, blk_pooling_mode = pooling_mode,
                             blk_batch_normalization = batch_normalization,
                             blk_dropout_prob = dropout_prob,
                             blk_pooling_layer = pooling_layer,
                             blk_output_layer = output_layer,
                             blk_static_encoder =
                               (if n_s > 0 \<and> n_s_hidden > 0
                                then Some [Dropout 0.5, Linear n_s n_s_hidden, Act (NN ''ReLU'')]
                                else None),
                             blk_layers = hidden_layers @ output_layer,
                             blk_basis = basis\<rparr>)))))"

subsection \<open>\<^verbatim>\<open>init_weights\<close>\<close>

text \<open>The initialisation name is looked at for a \<^verbatim>\<open>nn.Linear\<close> module only; a
  convolution is always initialised the same way, and any other module is left alone.
  The values written into the weights are random and are not represented.\<close>

definition init_weights :: "nn \<Rightarrow> string \<Rightarrow> error + unit" where
  "init_weights m initialization =
     (case m of
        Linear i out \<Rightarrow>
          (if initialization \<in> set [''orthogonal'', ''he_uniform'', ''he_normal'',
                ''glorot_uniform'', ''glorot_normal'', ''Sin'', ''lecun_normal'']
           then Inr ()
           else Inl (AssertionError Initialization_name))
      | _ \<Rightarrow> Inr ())"

text \<open>The modules that \<^verbatim>\<open>nn.Module.apply\<close> visits below one entry of the layer list.\<close>

fun modules :: "layer \<Rightarrow> nn list" where
  "modules (HiddenFeaturesLinearEncoder encoder) = encoder"
| "modules (HiddenFeaturesDownSampleEncoder ConvLayer BatchNorm activ) =
     [ConvLayer, BatchNorm] @ (case activ of None \<Rightarrow> [] | Some a \<Rightarrow> [Act a])"
| "modules (HiddenFeaturesUpsampleEncoder ConvLayer BatchNorm activ) =
     [ConvLayer, BatchNorm] @ (case activ of None \<Rightarrow> [] | Some a \<Rightarrow> [Act a])"
| "modules (Module m) = [m]"

fun apply_modules :: "nn list \<Rightarrow> string \<Rightarrow> error + unit" where
  "apply_modules [] initialization = Inr ()"
| "apply_modules (m # ms) initialization =
     ebind (init_weights m initialization) (\<lambda>_. apply_modules ms initialization)"

text \<open>\<^verbatim>\<open>nbeats_block.layers.apply(init_function)\<close>.\<close>

definition layers_apply :: "layer list \<Rightarrow> string \<Rightarrow> error + unit" where
  "layers_apply layers initialization = apply_modules (concat (map modules layers)) initialization"

subsection \<open>\<^verbatim>\<open>_NHITS.create_stack\<close>\<close>

record config =
  cfg_n_time_in :: nat
  cfg_n_time_out :: nat
  cfg_n_s :: nat
  cfg_n_x :: nat
  cfg_n_s_hidden :: nat
  cfg_n_x_hidden :: nat
  cfg_stack_types :: "string list"
  cfg_n_blocks :: "nat list"
  cfg_n_layers :: "nat list"
  cfg_n_theta_hidden :: "nat list list"
  cfg_n_pool_kernel_size :: "nat list"
  cfg_n_freq_downsample :: "nat list"
  cfg_pooling_mode :: string
  cfg_layer_mode :: string
  cfg_output_layer :: string
  cfg_interpolation_mode :: string
  cfg_dropout_prob_theta :: real
  cfg_activation :: string
  cfg_initialization :: string
  cfg_batch_normalization :: bool
  cfg_shared_weights :: bool

text \<open>
  Block objects live in a store: the list \<open>heap\<close> of the blocks constructed so far, a
  block's reference being its position. \<^verbatim>\<open>block_list\<close> is a list of references, so
  that two entries of it that are the same object are the same reference.
  One turn of the inner loop, for stack \<open>i\<close> and \<^verbatim>\<open>block_id\<close>:
\<close>

definition create_block ::
  "config \<Rightarrow> nat \<Rightarrow> nat \<Rightarrow> NHITSBlock list \<times> nat list \<Rightarrow> error + (NHITSBlock list \<times> nat list)" where
  "create_block cfg i block_id st =
     (case st of (heap, block_list) \<Rightarrow>
      let batch_normalization_block = (length block_list = 0 \<and> cfg_batch_normalization cfg) in
      ebind
        (if cfg_shared_weights cfg \<and> block_id > 0 then
           (if block_list = [] then Inl IndexError else Inr (heap, last block_list))
         else
           ebind (get (cfg_stack_types cfg) i) (\<lambda>stack_type.
           if stack_type = ''identity'' then
             ebind (get (cfg_n_freq_downsample cfg) i) (\<lambda>n_freq_downsample_i.
             ebind (floor_div (cfg_n_time_out cfg) n_freq_downsample_i) (\<lambda>q.
             let n_theta = cfg_n_time_in cfg + max q 1 in
             ebind (IdentityBasis_init (cfg_n_time_in cfg) (cfg_n_time_out cfg) (cfg_interpolation_mode cfg))
               (\<lambda>basis.
             ebind (get (cfg_n_theta_hidden cfg) i) (\<lambda>n_theta_hidden_i.
             ebind (get (cfg_n_pool_kernel_size cfg) i) (\<lambda>n_pool_kernel_size_i.
             ebind (get (cfg_n_layers cfg) i) (\<lambda>n_layers_i.
             ebind (NHITSBlock_init (cfg_n_time_in cfg) (cfg_n_time_out cfg) (cfg_n_x cfg) (cfg_n_s cfg)
                      (cfg_n_s_hidden cfg) n_theta n_theta_hidden_i n_pool_kernel_size_i
                      n_freq_downsample_i (cfg_pooling_mode cfg) (cfg_layer_mode cfg) (cfg_output_layer cfg)
                      basis n_layers_i batch_normalization_block (cfg_dropout_prob_theta cfg)
                      (cfg_activation cfg))
               (\<lambda>nbeats_block. Inr (heap @ [nbeats_block], length heap))))))))
           else Inl (AssertionError Block_type)))
        (\<lambda>(heap, nbeats_block).
           ebind (get heap nbeats_block) (\<lambda>blk.
           ebind (layers_apply (blk_layers blk) (cfg_initialization cfg))
             (\<lambda>_. Inr (heap, block_list @ [nbeats_block])))))"

text \<open>\<^verbatim>\<open>for block_id in range(n_blocks[i])\<close> and \<^verbatim>\<open>for i in range(len(stack_types))\<close>.\<close>

fun blocks_loop ::
  "config \<Rightarrow> nat \<Rightarrow> nat list \<Rightarrow> NHITSBlock list \<times> nat list \<Rightarrow> error + (NHITSBlock list \<times> nat list)" where
  "blocks_loop cfg i [] st = Inr st"
| "blocks_loop cfg i (block_id # ids) st =
     ebind (create_block cfg i block_id st) (blocks_loop cfg i ids)"

fun stacks_loop ::
  "config \<Rightarrow> nat list \<Rightarrow> NHITSBlock list \<times> nat list \<Rightarrow> error + (NHITSBlock list \<times> nat list)" where
  "stacks_loop cfg [] st = Inr st"
| "stacks_loop cfg (i # is) st =
     ebind (get (cfg_n_blocks cfg) i) (\<lambda>n.
     ebind (blocks_loop cfg i [0..<n] st) (stacks_loop cfg is))"

text \<open>The result: the store and \<^verbatim>\<open>block_list\<close>.\<close>

definition create_stack :: "config \<Rightarrow> error + (NHITSBlock list \<times> nat list)" where
  "create_stack cfg = stacks_loop cfg [0..<length (cfg_stack_types cfg)] ([], [])"

subsection \<open>The width a hidden layer really produces\<close>










subsection \<open>Notions used by the properties of \<^verbatim>\<open>create_stack\<close>\<close>

text \<open>An error that is a failed \<^verbatim>\<open>assert\<close>.\<close>

definition is_assertion :: "error \<Rightarrow> bool" where
  "is_assertion e = (case e of AssertionError a \<Rightarrow> True | _ \<Rightarrow> False)"

text \<open>The names that the \<^verbatim>\<open>if\<close>/\<^verbatim>\<open>elif\<close> chain of \<^verbatim>\<open>init_weights\<close> accepts, and the list
  of the assertion on the pooling mode.\<close>

definition INITIALIZATIONS :: "string list" where
  "INITIALIZATIONS = [''orthogonal'', ''he_uniform'', ''he_normal'', ''glorot_uniform'',
     ''glorot_normal'', ''Sin'', ''lecun_normal'']"

definition POOLING_MODES :: "string list" where
  "POOLING_MODES = [''max'', ''conv'', ''stochastic'', ''none'']"

text \<open>Whether \<^verbatim>\<open>layers.apply\<close> meets a \<^verbatim>\<open>nn.Linear\<close> module.\<close>

fun is_Linear :: "nn \<Rightarrow> bool" where
  "is_Linear (Linear i out) = True"
| "is_Linear m = False"

definition has_linear :: "layer list \<Rightarrow> bool" where
  "has_linear layers = list_ex is_Linear (concat (map modules layers))"

text \<open>The invariant of the two loops of \<^verbatim>\<open>create_stack\<close>, on the store and the block list.\<close>

definition stack_inv :: "config \<Rightarrow> NHITSBlock list \<times> nat list \<Rightarrow> bool" where
  "stack_inv cfg st =
     (case st of (heap, block_list) \<Rightarrow>
        (block_list = [] \<longleftrightarrow> heap = [])
      \<and> (\<forall>r\<in>set block_list. r < length heap)
      \<and> (block_list \<noteq> [] \<longrightarrow> block_list ! 0 = 0)
      \<and> (\<not> cfg_shared_weights cfg \<longrightarrow> block_list = [0..<length heap])
      \<and> (heap \<noteq> [] \<longrightarrow> cfg_pooling_mode cfg \<in> set POOLING_MODES
                        \<and> cfg_activation cfg \<in> set ACTIVATIONS)
      \<and> (\<forall>blk\<in>set heap. has_linear (blk_layers blk)
                        \<longrightarrow> cfg_initialization cfg \<in> set INITIALIZATIONS)
      \<and> (heap \<noteq> [] \<longrightarrow> blk_batch_normalization (heap ! 0) = cfg_batch_normalization cfg)
      \<and> (\<forall>k. 0 < k \<and> k < length heap \<longrightarrow> \<not> blk_batch_normalization (heap ! k)))"

text \<open>The position in \<^verbatim>\<open>block_list\<close> of the first block of stack \<open>i\<close>, and the block list
  after \<open>i\<close> stacks with shared weights: every stack is a run of one reference.\<close>

definition stack_offset :: "config \<Rightarrow> nat \<Rightarrow> nat" where
  "stack_offset cfg i = sum_list (take i (cfg_n_blocks cfg))"

definition stack_runs :: "config \<Rightarrow> nat \<Rightarrow> nat list \<Rightarrow> bool" where
  "stack_runs cfg i block_list =
     (length block_list = stack_offset cfg i \<and> i \<le> length (cfg_n_blocks cfg)
      \<and> (\<forall>k<i. \<forall>j<cfg_n_blocks cfg ! k.
            block_list ! (stack_offset cfg k + j) = block_list ! stack_offset cfg k))"

text \<open>A configuration of two stacks, of two blocks and of one block.\<close>

definition example_config :: config where
  "example_config = \<lparr>cfg_n_time_in = 4, cfg_n_time_out = 2, cfg_n_s = 0, cfg_n_x = 0,
     cfg_n_s_hidden = 0, cfg_n_x_hidden = 0,
     cfg_stack_types = [''identity'', ''identity''], cfg_n_blocks = [2, 1],
     cfg_n_layers = [1, 1], cfg_n_theta_hidden = [[8], [8]],
     cfg_n_pool_kernel_size = [1, 1], cfg_n_freq_downsample = [1, 1],
     cfg_pooling_mode = ''none'', cfg_layer_mode = ''linear'', cfg_output_layer = ''linear'',
     cfg_interpolation_mode = ''linear'', cfg_dropout_prob_theta = 0,
     cfg_activation = ''ReLU'', cfg_initialization = ''orthogonal'',
     cfg_batch_normalization = True, cfg_shared_weights = True\<rparr>"

text \<open>The configuration above in \<^verbatim>\<open>conv\<close> layer mode with a \<^verbatim>\<open>max\<close> output layer, which builds
  no linear layer, and an initialisation name that \<^verbatim>\<open>init_weights\<close> does not know.\<close>

definition conv_config :: config where
  "conv_config = example_config\<lparr>cfg_layer_mode := ''conv'', cfg_output_layer := ''max'',
     cfg_initialization := ''foo''\<rparr>"

subsection \<open>Pooling layers\<close>

text \<open>
  \<^verbatim>\<open>Tensor.unfold(1, size, step)\<close> on one row: the windows of \<open>sz\<close> elements that start
  at \<open>0\<close>, \<open>step\<close>, \<open>2 * step\<close>, ... and fit into the row. It raises when the row is
  shorter than \<open>sz\<close> or \<open>step\<close> is zero.
\<close>

definition unfold :: "nat \<Rightarrow> nat \<Rightarrow> 'a list \<Rightarrow> error + 'a list list" where
  "unfold sz step xs =
     (if step = 0 \<or> length xs < sz then Inl RuntimeError
      else Inr (map (\<lambda>j. take sz (drop (j * step) xs)) [0..<(length xs - sz) div step + 1]))"

text \<open>A function on rows, applied to every row of a tensor; the first error is raised.\<close>

fun each_row :: "('a \<Rightarrow> error + 'b) \<Rightarrow> 'a list \<Rightarrow> error + 'b list" where
  "each_row f [] = Inr []"
| "each_row f (x # xs) = ebind (f x) (\<lambda>y. ebind (each_row f xs) (\<lambda>ys. Inr (y # ys)))"

text \<open>
  \<^verbatim>\<open>nn.MaxPool1d(kernel_size, stride)\<close> on a \<open>(B, 1, L)\<close> input, squeezed: the maximum of
  every window. (\<^verbatim>\<open>ceil_mode\<close> is left at its default \<^verbatim>\<open>False\<close> by the source.)
\<close>

definition MaxPool1d_forward :: "nat \<Rightarrow> nat \<Rightarrow> 'a::linorder list list \<Rightarrow> error + 'a list list" where
  "MaxPool1d_forward kernel_size stride x =
     (if kernel_size = 0 then Inl RuntimeError
      else each_row (\<lambda>row. ebind (unfold kernel_size stride row)
                       (\<lambda>ws. Inr (map (\<lambda>w. fold max (tl w) (hd w)) ws))) x)"

text \<open>\<^verbatim>\<open>torch.take(x, idx)\<close>: \<open>x\<close> is read as a 1-D tensor, here the list \<open>flat\<close> of its
  elements in row-major order.\<close>

definition take_flat :: "'a list \<Rightarrow> nat list \<Rightarrow> error + 'a list" where
  "take_flat flat idx =
     (if \<forall>i\<in>set idx. i < length flat then Inr (map (\<lambda>i. flat ! i) idx) else Inl IndexError)"

text \<open>\<^verbatim>\<open>Tensor.view(b, w)\<close> of a 1-D tensor.\<close>

definition view2 :: "nat \<Rightarrow> nat \<Rightarrow> 'a list \<Rightarrow> error + 'a list list" where
  "view2 b w flat =
     (if b * w = length flat then Inr (map (\<lambda>r. take w (drop (r * w) flat)) [0..<b])
      else Inl RuntimeError)"

text \<open>
  \<^verbatim>\<open>StochasticPool1D.forward\<close>. The random draw \<^verbatim>\<open>idx = t.randint(0, x.shape[1],
  size=(x.shape[0],))\<close> is the argument \<open>idx\<close>: one offset below the kernel size for every
  window of every row. \<^verbatim>\<open>int(init_size[1]/self.kernel_size)\<close> is \<open>div\<close>.
\<close>

definition StochasticPool1D_forward ::
  "nat \<Rightarrow> nat \<Rightarrow> nat list \<Rightarrow> 'a list list \<Rightarrow> error + 'a list list" where
  "StochasticPool1D_forward kernel_size stride idx x =
     (let init_size = (length x, case x of [] \<Rightarrow> 0 | row # _ \<Rightarrow> length row) in
      if kernel_size = 0 then Inl RuntimeError
      else
        ebind (each_row (unfold kernel_size stride) x) (\<lambda>x.
        let x = concat x in
        ebind (take_flat (concat x) idx) (\<lambda>x.
        view2 (fst init_size) (snd init_size div kernel_size) x)))"

text \<open>
  What the spec says of stochastic pooling: the output at position \<open>j\<close> of batch
  element \<open>b\<close> is the element of that row's \<open>j\<close>-th window at the offset drawn for that
  position. The offsets are laid out as the source draws them, one per window, row
  after row.
\<close>

definition stochastic_pool_spec :: "nat \<Rightarrow> nat list \<Rightarrow> 'a list list \<Rightarrow> 'a list list" where
  "stochastic_pool_spec kernel_size idx x =
     map (\<lambda>b. map (\<lambda>j. take kernel_size (drop (j * kernel_size) (x ! b))
                          ! (idx ! (b * (length (x ! b) div kernel_size) + j)))
                 [0..<length (x ! b) div kernel_size])
         [0..<length x]"

text \<open>
  \<^verbatim>\<open>_NHITSBlock.forward\<close> on widths, for a batch of \<open>batch\<close> rows and modules in training
  mode or not: the pooling layer on an insample window of width \<open>insample_y\<close>, the
  concatenation of the flattened exogenous tensors (of widths \<open>insample_x_t\<close> and
  \<open>outsample_x_t\<close>) and of the encoded static features, and \<^verbatim>\<open>self.layers\<close>. The result
  is the width of \<^verbatim>\<open>theta\<close>.
\<close>

definition NHITSBlock_forward_width ::
  "bool \<Rightarrow> nat \<Rightarrow> NHITSBlock \<Rightarrow> nat \<Rightarrow> nat \<Rightarrow> nat \<Rightarrow> error + nat" where
  "NHITSBlock_forward_width training batch self insample_y insample_x_t outsample_x_t =
     ebind
       (if blk_pooling_mode self = ''max'' then
          nn_width training batch
            (MaxPool1d (blk_n_pool_kernel_size self) (blk_n_pool_kernel_size self)) insample_y
        else if blk_pooling_mode self = ''stochastic'' then
          (if blk_n_pool_kernel_size self = 0 \<or> insample_y < blk_n_pool_kernel_size self
           then Inl RuntimeError
           else Inr (insample_y div blk_n_pool_kernel_size self))
        else Inr insample_y)
       (\<lambda>insample_y.
          let insample_y = (if blk_n_x self > 0 then insample_y + insample_x_t + outsample_x_t
                            else insample_y);
              insample_y = (if blk_n_s self > 0 \<and> blk_n_s_hidden self > 0
                            then insample_y + blk_n_s_hidden self else insample_y)
          in chain_width training batch (blk_layers self) insample_y)"

subsection \<open>\<^verbatim>\<open>torch.nn.functional.interpolate\<close>\<close>

text \<open>
  The library function is modelled one batch row at a time, with exact arithmetic on
  the reals in place of floating point. \<open>sz\<close> is the \<^verbatim>\<open>size\<close> argument.
  \<^item> \<^verbatim>\<open>nearest\<close>: output \<open>i\<close> reads the input at \<open>floor (i * scale)\<close>, \<open>scale\<close> being the
    input length over \<open>sz\<close>.
  \<^item> \<^verbatim>\<open>linear\<close> (corners not aligned): the source coordinate is
    \<open>max (scale * (i + 1/2) - 1/2) 0\<close>, and the output weighs its two neighbours.
  \<^item> \<^verbatim>\<open>bicubic\<close> on a \<open>(n, 1, 1, K)\<close> input: the output is \<open>(n, 1, sz, sz)\<close>, of which the
    source keeps the row \<open>[:, 0, 0, :]\<close>. The four vertical taps of that row are all the
    single input row, interpolated horizontally with the cubic convolution weights
    (\<open>A = -3/4\<close>) at taps clamped to the input.
\<close>

definition interpolate_nearest :: "nat \<Rightarrow> 'a list \<Rightarrow> 'a list" where
  "interpolate_nearest sz knots =
     map (\<lambda>i. knots ! min (i * length knots div sz) (length knots - 1)) [0..<sz]"

definition interpolate_linear :: "nat \<Rightarrow> real list \<Rightarrow> real list" where
  "interpolate_linear sz knots =
     map (\<lambda>i. let scale = real (length knots) / real sz;
                   src = max (scale * (real i + 1/2) - 1/2) 0;
                   i0 = min (nat \<lfloor>src\<rfloor>) (length knots - 1);
                   i1 = i0 + (if i0 < length knots - 1 then 1 else 0);
                   l1 = min (max (src - real i0) 0) 1;
                   l0 = 1 - l1
               in l0 * knots ! i0 + l1 * knots ! i1) [0..<sz]"

definition cubic_convolution1 :: "real \<Rightarrow> real" where
  "cubic_convolution1 x = ((-3/4 + 2) * x - (-3/4 + 3)) * x * x + 1"

definition cubic_convolution2 :: "real \<Rightarrow> real" where
  "cubic_convolution2 x = (((-3/4) * x - 5 * (-3/4)) * x + 8 * (-3/4)) * x - 4 * (-3/4)"

definition cubic_interp1d :: "real \<Rightarrow> real \<Rightarrow> real \<Rightarrow> real \<Rightarrow> real \<Rightarrow> real" where
  "cubic_interp1d x0 x1 x2 x3 t =
     x0 * cubic_convolution2 (t + 1) + x1 * cubic_convolution1 t
       + x2 * cubic_convolution1 (1 - t) + x3 * cubic_convolution2 (2 - t)"

definition clamped :: "real list \<Rightarrow> int \<Rightarrow> real" where
  "clamped knots i = knots ! nat (max 0 (min (int (length knots) - 1) i))"

definition interpolate_bicubic :: "nat \<Rightarrow> real list \<Rightarrow> real list" where
  "interpolate_bicubic sz knots =
     map (\<lambda>i. let real_x = real (length knots) / real sz * (real i + 1/2) - 1/2;
                   in_x = \<lfloor>real_x\<rfloor>;
                   t_x = real_x - real_of_int in_x;
                   real_y = 1 / real sz * (1/2) - 1/2;
                   t_y = real_y - real_of_int \<lfloor>real_y\<rfloor>;
                   c = cubic_interp1d (clamped knots (in_x - 1)) (clamped knots in_x)
                         (clamped knots (in_x + 1)) (clamped knots (in_x + 2)) t_x
               in cubic_interp1d c c c c t_y) [0..<sz]"

text \<open>The call on a batch: every row on its own; an empty input row or an output size
  of zero is refused.\<close>

definition F_interpolate ::
  "(nat \<Rightarrow> 'a list \<Rightarrow> 'a list) \<Rightarrow> nat \<Rightarrow> 'a list list \<Rightarrow> error + 'a list list" where
  "F_interpolate mode sz x =
     (if sz = 0 \<or> list_ex (\<lambda>row. row = []) x then Inl RuntimeError
      else Inr (map (mode sz) x))"

subsection \<open>\<^verbatim>\<open>IdentityBasis.forward\<close>\<close>

text \<open>\<^verbatim>\<open>int(self.interpolation_mode.split('-')[-1])\<close>: the text after the last \<^verbatim>\<open>-\<close>, read as
  a decimal number. (Python's \<^verbatim>\<open>int\<close> also accepts a sign, blanks around the digits and
  underscores between them; here any character that is not a digit is a
  \<^verbatim>\<open>ValueError\<close>.)\<close>

definition split_last :: "string \<Rightarrow> string" where
  "split_last s = rev (takeWhile (\<lambda>c. c \<noteq> CHR ''-'') (rev s))"

definition digit :: "char \<Rightarrow> nat option" where
  "digit c = map_of (zip ''0123456789'' [0..<10]) c"

fun digits_value :: "string \<Rightarrow> nat \<Rightarrow> error + nat" where
  "digits_value [] n = Inr n"
| "digits_value (c # cs) n =
     (case digit c of None \<Rightarrow> Inl ValueError | Some d \<Rightarrow> digits_value cs (10 * n + d))"

definition py_int :: "string \<Rightarrow> error + nat" where
  "py_int s = (if s = [] then Inl ValueError else digits_value s 0)"

text \<open>Python's \<^verbatim>\<open>xs[lo:hi]\<close>, and \<^verbatim>\<open>buf[lo:hi] += v\<close> on tensors of the same shape.\<close>

definition slice :: "nat \<Rightarrow> nat \<Rightarrow> 'a list \<Rightarrow> 'a list" where
  "slice lo hi xs = take (hi - lo) (drop lo xs)"

definition slice_iadd ::
  "'a::plus list list \<Rightarrow> nat \<Rightarrow> nat \<Rightarrow> 'a list list \<Rightarrow> error + 'a list list" where
  "slice_iadd buf lo hi v =
     (if map length (slice lo hi buf) = map length v
      then Inr (take lo buf @ map2 (map2 (+)) (slice lo hi buf) v @ drop hi buf)
      else Inl RuntimeError)"

text \<open>The loop \<^verbatim>\<open>for i in range(n_batches)\<close> of the cubic branch, on the buffer
  \<^verbatim>\<open>forecast\<close>.\<close>

fun cubic_loop ::
  "nat \<Rightarrow> nat \<Rightarrow> real list list \<Rightarrow> nat list \<Rightarrow> real list list \<Rightarrow> error + real list list" where
  "cubic_loop forecast_size batch_size knots [] forecast = Inr forecast"
| "cubic_loop forecast_size batch_size knots (i # is) forecast =
     ebind (F_interpolate interpolate_bicubic forecast_size
              (slice (i * batch_size) ((i + 1) * batch_size) knots)) (\<lambda>forecast_i.
     ebind (slice_iadd forecast (i * batch_size) ((i + 1) * batch_size) forecast_i)
       (cubic_loop forecast_size batch_size knots is))"

text \<open>The forward pass. \<^verbatim>\<open>insample_x_t\<close> and \<^verbatim>\<open>outsample_x_t\<close> are not used by the source. A
  mode that matches no branch leaves \<^verbatim>\<open>forecast\<close> unbound (the constructor's assertion
  excludes it).\<close>

definition IdentityBasis_forward ::
  "IdentityBasis \<Rightarrow> real list list \<Rightarrow> 'x \<Rightarrow> 'y \<Rightarrow> error + (real list list \<times> real list list)" where
  "IdentityBasis_forward self theta insample_x_t outsample_x_t =
     (let backcast = map (take (basis_backcast_size self)) theta;
          knots = map (drop (basis_backcast_size self)) theta
      in if basis_interpolation_mode self = ''nearest'' then
           ebind (F_interpolate interpolate_nearest (basis_forecast_size self) knots)
             (\<lambda>forecast. Inr (backcast, forecast))
         else if basis_interpolation_mode self = ''linear'' then
           ebind (F_interpolate interpolate_linear (basis_forecast_size self) knots)
             (\<lambda>forecast. Inr (backcast, forecast))
         else if sublist ''cubic'' (basis_interpolation_mode self) then
           ebind (py_int (split_last (basis_interpolation_mode self))) (\<lambda>batch_size.
           let forecast = replicate (length knots) (replicate (basis_forecast_size self) 0) in
           if batch_size = 0 then Inl ZeroDivisionError
           else
             (let n_batches = nat \<lceil>real (length knots) / real batch_size\<rceil> in
              ebind (cubic_loop (basis_forecast_size self) batch_size knots [0..<n_batches]
                       forecast)
                (\<lambda>forecast. Inr (backcast, forecast))))
         else Inl UnboundLocalError)"

text \<open>The buffer after the first \<open>i\<close> sub-batches: the rows done, then rows of zeros.\<close>

definition cubic_buffer :: "nat \<Rightarrow> nat \<Rightarrow> real list list \<Rightarrow> nat \<Rightarrow> real list list" where
  "cubic_buffer forecast_size batch_size knots i =
     map (interpolate_bicubic forecast_size) (take (i * batch_size) knots)
       @ replicate (length knots - i * batch_size) (replicate forecast_size 0)"

text \<open>A basis of backcast size 2 and forecast size 4, for the examples.\<close>

definition example_basis :: "string \<Rightarrow> IdentityBasis" where
  "example_basis mode = \<lparr>basis_forecast_size = 4, basis_backcast_size = 2,
     basis_interpolation_mode = mode\<rparr>"

section \<open>Properties\<close>

subsection \<open>The error monad and the list helpers\<close>

lemma ebind_Inl [simp]: "ebind (Inl e) f = Inl e"
  by (simp add: ebind_def)

lemma ebind_Inr [simp]: "ebind (Inr x) f = f x"
  by (simp add: ebind_def)

lemma ebind_eq_Inr: "ebind m f = Inr y \<longleftrightarrow> (\<exists>x. m = Inr x \<and> f x = Inr y)"
  by (cases m) simp_all

lemma get_eq_Inr: "get xs i = Inr x \<longleftrightarrow> i < length xs \<and> x = xs ! i"
  by (auto simp: get_def)

lemma floor_div_eq_Inr: "floor_div a b = Inr q \<longleftrightarrow> b \<noteq> 0 \<and> q = a div b"
  by (auto simp: floor_div_def)

subsection \<open>Widths through the projection network\<close>


lemma linear_encoder_width:
  assumes "HiddenFeaturesLinearEncoder_init a b act bn dp = Inr l" and "\<not> (tr \<and> n = 1)"
  shows "layer_width tr n l a = Inr b"
  using assms
  by (auto simp: HiddenFeaturesLinearEncoder_init_def split: if_splits option.splits)



































subsection \<open>Construction: what a successful constructor call established\<close>

lemma ebind_eq_Inl: "ebind m f = Inl e \<longleftrightarrow> m = Inl e \<or> (\<exists>x. m = Inr x \<and> f x = Inl e)"
  by (cases m) simp_all

lemma NHITSBlock_init_Inr:
  assumes "NHITSBlock_init n_time_in n_time_out n_x n_s n_s_hidden n_theta n_theta_hidden
       n_pool_kernel_size n_freq_downsample pooling_mode layer_mode output_layer basis
       n_layers bn dropout_prob activation = Inr blk"
  shows "pooling_mode \<in> set [''max'', ''conv'', ''stochastic'', ''none'']
     \<and> pooling_mode \<noteq> ''conv'' \<and> n_pool_kernel_size \<noteq> 0
     \<and> activation \<in> set ACTIVATIONS
     \<and> blk_batch_normalization blk = bn
     \<and> (\<exists>ws' hidden out.
          hidden_layers_loop layer_mode
            (if activation \<noteq> ''Sin'' then NN activation else Sine 30) bn dropout_prob
            [0..<n_layers]
            ([n_time_in_pooled n_time_in n_pool_kernel_size + (n_time_in + n_time_out) * n_x
                + (if n_s = 0 then 0 else n_s_hidden)] @ n_theta_hidden, [])
            = Inr (ws', hidden)
        \<and> make_output_layer output_layer (last ws') n_theta
            (if activation \<noteq> ''Sin'' then NN activation else Sine 30) = Inr out
        \<and> blk_layers blk = hidden @ out)"
proof -
  let ?activ = "if activation \<noteq> ''Sin'' then NN activation else Sine 30"
  let ?ws = "[n_time_in_pooled n_time_in n_pool_kernel_size + (n_time_in + n_time_out) * n_x
                + (if n_s = 0 then 0 else n_s_hidden)] @ n_theta_hidden"
  from assms have p: "pooling_mode \<in> set [''max'', ''conv'', ''stochastic'', ''none'']"
    unfolding NHITSBlock_init_def by (simp split: if_splits)
  from assms p have k: "n_pool_kernel_size \<noteq> 0"
    unfolding NHITSBlock_init_def by (simp split: if_splits)
  from assms p k have a: "activation \<in> set ACTIVATIONS"
    unfolding NHITSBlock_init_def Let_def by (simp split: if_splits)
  from assms p k a have c: "pooling_mode \<noteq> ''conv''"
    unfolding NHITSBlock_init_def Let_def by (simp split: if_splits)
  from assms p k a c obtain ws' hidden out where
    l: "hidden_layers_loop layer_mode ?activ bn dropout_prob [0..<n_layers] (?ws, [])
          = Inr (ws', hidden)"
    and ol: "make_output_layer output_layer (last ws') n_theta ?activ = Inr out"
    and b: "blk_layers blk = hidden @ out" "blk_batch_normalization blk = bn"
    unfolding NHITSBlock_init_def Let_def
    by (simp add: ebind_eq_Inr split: if_splits prod.splits) force+
  with p k a c show ?thesis by blast
qed

lemma hidden_layer_step_error:
  assumes "hidden_layer_step lm activ bn dp i st = Inl e"
  shows "\<not> is_assertion e"
  using assms
  by (cases st)
     (auto simp: hidden_layer_step_def ebind_eq_Inl get_def floor_div_def Let_def is_assertion_def
        HiddenFeaturesLinearEncoder_init_def split: if_splits)

lemma hidden_layers_loop_error:
  "hidden_layers_loop lm activ bn dp is st = Inl e \<Longrightarrow> \<not> is_assertion e"
  by (induction "is" arbitrary: st) (auto simp: ebind_eq_Inl dest: hidden_layer_step_error)

lemma make_output_layer_error:
  assumes "make_output_layer ol h n_theta activ = Inl e"
  shows "\<not> is_assertion e"
  using assms
  by (auto simp: make_output_layer_def ebind_eq_Inl floor_div_def Let_def is_assertion_def
        HiddenFeaturesLinearEncoder_init_def split: if_splits)

lemma NHITSBlock_init_Inl:
  assumes "NHITSBlock_init n_time_in n_time_out n_x n_s n_s_hidden n_theta n_theta_hidden
       n_pool_kernel_size n_freq_downsample pooling_mode layer_mode output_layer basis
       n_layers bn dropout_prob activation = Inl (AssertionError a)"
  shows "(a = Pooling_mode \<and> pooling_mode \<notin> set [''max'', ''conv'', ''stochastic'', ''none''])
       \<or> (a = Activation_name \<and> activation \<notin> set ACTIVATIONS)"
proof -
  have na: "\<not> is_assertion e \<Longrightarrow> e \<noteq> AssertionError a" for e
    by (auto simp: is_assertion_def)
  show ?thesis
    using assms unfolding NHITSBlock_init_def Let_def
    by (auto simp: ebind_eq_Inl split: if_splits prod.splits
          dest!: hidden_layers_loop_error make_output_layer_error na)
qed

lemma NHITSBlock_init_pooling:
  assumes "pooling_mode \<notin> set [''max'', ''conv'', ''stochastic'', ''none'']"
  shows "NHITSBlock_init n_time_in n_time_out n_x n_s n_s_hidden n_theta n_theta_hidden
       n_pool_kernel_size n_freq_downsample pooling_mode layer_mode output_layer basis
       n_layers bn dropout_prob activation = Inl (AssertionError Pooling_mode)"
  using assms unfolding NHITSBlock_init_def by simp

lemma apply_modules_Inr:
  "apply_modules ms init = Inr u \<longleftrightarrow> (list_ex is_Linear ms \<longrightarrow> init \<in> set INITIALIZATIONS)"
proof (induction ms)
  case Nil
  then show ?case by simp
next
  case (Cons m ms)
  show ?case
  proof (cases m)
    case (Linear i out)
    then show ?thesis using Cons
      by (auto simp: init_weights_def INITIALIZATIONS_def)
  qed (use Cons in \<open>auto simp: init_weights_def\<close>)
qed

lemma apply_modules_Inl:
  "apply_modules ms init = Inl e \<Longrightarrow>
     e = AssertionError Initialization_name \<and> init \<notin> set INITIALIZATIONS"
proof (induction ms)
  case Nil
  then show ?case by simp
next
  case (Cons m ms)
  then show ?case
    by (cases m) (auto simp: init_weights_def INITIALIZATIONS_def ebind_eq_Inl split: if_splits)
qed

lemma layers_apply_Inr:
  "layers_apply ls init = Inr u \<longleftrightarrow> (has_linear ls \<longrightarrow> init \<in> set INITIALIZATIONS)"
  by (simp add: layers_apply_def has_linear_def apply_modules_Inr)

lemma layers_apply_Inl:
  "layers_apply ls init = Inl e \<Longrightarrow>
     e = AssertionError Initialization_name \<and> init \<notin> set INITIALIZATIONS"
  unfolding layers_apply_def by (rule apply_modules_Inl)

text \<open>What a successful turn of the inner loop did: it either reused the last block of
  the list, or constructed a block and stored it at a fresh reference.\<close>

lemma create_block_Inr:
  assumes "create_block cfg i block_id (heap, bl) = Inr (heap', bl')"
  shows "(cfg_shared_weights cfg \<and> 0 < block_id \<and> bl \<noteq> [] \<and> last bl < length heap
            \<and> heap' = heap \<and> bl' = bl @ [last bl]
            \<and> (has_linear (blk_layers (heap ! last bl))
                 \<longrightarrow> cfg_initialization cfg \<in> set INITIALIZATIONS))
       \<or> (\<not> (cfg_shared_weights cfg \<and> 0 < block_id)
            \<and> i < length (cfg_stack_types cfg) \<and> cfg_stack_types cfg ! i = ''identity''
            \<and> cfg_pooling_mode cfg \<in> set POOLING_MODES
            \<and> cfg_activation cfg \<in> set ACTIVATIONS
            \<and> (\<exists>blk. heap' = heap @ [blk] \<and> bl' = bl @ [length heap]
                 \<and> blk_batch_normalization blk = (bl = [] \<and> cfg_batch_normalization cfg)
                 \<and> (has_linear (blk_layers blk)
                      \<longrightarrow> cfg_initialization cfg \<in> set INITIALIZATIONS)))"
proof (cases "cfg_shared_weights cfg \<and> 0 < block_id")
  case True
  with assms show ?thesis
    by (auto simp: create_block_def ebind_eq_Inr get_def layers_apply_Inr split: if_splits)
next
  case False
  with assms obtain blk basis nfd q nth pk nl where
    ty: "i < length (cfg_stack_types cfg)" "cfg_stack_types cfg ! i = ''identity''"
    and init: "NHITSBlock_init (cfg_n_time_in cfg) (cfg_n_time_out cfg) (cfg_n_x cfg) (cfg_n_s cfg)
          (cfg_n_s_hidden cfg) (cfg_n_time_in cfg + max q 1) nth pk nfd
          (cfg_pooling_mode cfg) (cfg_layer_mode cfg) (cfg_output_layer cfg)
          basis nl (bl = [] \<and> cfg_batch_normalization cfg) (cfg_dropout_prob_theta cfg)
          (cfg_activation cfg) = Inr blk"
    and res: "heap' = heap @ [blk]" "bl' = bl @ [length heap]"
    and app: "layers_apply (blk_layers blk) (cfg_initialization cfg) = Inr ()"
    by (auto simp: create_block_def ebind_eq_Inr get_def Let_def split: if_splits)
  from NHITSBlock_init_Inr[OF init] app ty res False show ?thesis
    by (auto simp: POOLING_MODES_def layers_apply_Inr)
qed

lemma blocks_loop_inv:
  assumes "\<And>block_id st st'. P st \<Longrightarrow> create_block cfg i block_id st = Inr st' \<Longrightarrow> P st'"
  shows "blocks_loop cfg i ids st = Inr st' \<Longrightarrow> P st \<Longrightarrow> P st'"
proof (induction ids arbitrary: st)
  case Nil
  then show ?case by simp
next
  case (Cons block_id ids)
  then obtain st1 where "create_block cfg i block_id st = Inr st1"
    and "blocks_loop cfg i ids st1 = Inr st'"
    by (auto simp: ebind_eq_Inr)
  with Cons assms show ?case by blast
qed

lemma stacks_loop_inv:
  assumes "\<And>i block_id st st'. P st \<Longrightarrow> create_block cfg i block_id st = Inr st' \<Longrightarrow> P st'"
  shows "stacks_loop cfg is st = Inr st' \<Longrightarrow> P st \<Longrightarrow> P st'"
proof (induction "is" arbitrary: st)
  case Nil
  then show ?case by simp
next
  case (Cons i "is")
  then obtain n st1 where "blocks_loop cfg i [0..<n] st = Inr st1"
    and "stacks_loop cfg is st1 = Inr st'"
    by (auto simp: ebind_eq_Inr)
  moreover from this(1) Cons.prems(2) have "P st1"
    using blocks_loop_inv[of P cfg i] assms by blast
  ultimately show ?case using Cons.IH by blast
qed

lemma stack_inv_create_block:
  assumes inv: "stack_inv cfg st" and step: "create_block cfg i block_id st = Inr st'"
  shows "stack_inv cfg st'"
proof -
  obtain heap bl where st: "st = (heap, bl)" by (cases st)
  obtain heap' bl' where st': "st' = (heap', bl')" by (cases st')
  from inv st have
    e: "bl = [] \<longleftrightarrow> heap = []" and r: "\<forall>r\<in>set bl. r < length heap"
    and z: "bl \<noteq> [] \<longrightarrow> bl ! 0 = 0"
    and ns: "\<not> cfg_shared_weights cfg \<longrightarrow> bl = [0..<length heap]"
    and pa: "heap \<noteq> [] \<longrightarrow> cfg_pooling_mode cfg \<in> set POOLING_MODES
                        \<and> cfg_activation cfg \<in> set ACTIVATIONS"
    and li: "\<forall>blk\<in>set heap. has_linear (blk_layers blk)
                        \<longrightarrow> cfg_initialization cfg \<in> set INITIALIZATIONS"
    and b0: "heap \<noteq> [] \<longrightarrow> blk_batch_normalization (heap ! 0) = cfg_batch_normalization cfg"
    and bk: "\<forall>k. 0 < k \<and> k < length heap \<longrightarrow> \<not> blk_batch_normalization (heap ! k)"
    by (auto simp: stack_inv_def)
  from create_block_Inr[OF step[unfolded st st']]
  consider (reuse) "cfg_shared_weights cfg" "bl \<noteq> []" "last bl < length heap"
      "heap' = heap" "bl' = bl @ [last bl]"
    | (fresh) blk where "cfg_pooling_mode cfg \<in> set POOLING_MODES"
      "cfg_activation cfg \<in> set ACTIVATIONS"
      "heap' = heap @ [blk]" "bl' = bl @ [length heap]"
      "blk_batch_normalization blk = (bl = [] \<and> cfg_batch_normalization cfg)"
      "has_linear (blk_layers blk) \<longrightarrow> cfg_initialization cfg \<in> set INITIALIZATIONS"
    by blast
  then show ?thesis
  proof cases
    case reuse
    with reuse e r z pa li b0 bk show ?thesis
      unfolding st' stack_inv_def by (auto simp: nth_append)
  next
    case fresh
    have 1: "bl' = [] \<longleftrightarrow> heap' = []" using fresh by simp
    have 2: "\<forall>r\<in>set bl'. r < length heap'" using fresh r by auto
    have 3: "bl' \<noteq> [] \<longrightarrow> bl' ! 0 = 0" using fresh z e by (cases bl) auto
    have 4: "\<not> cfg_shared_weights cfg \<longrightarrow> bl' = [0..<length heap']" using fresh ns by auto
    have 5: "heap' \<noteq> [] \<longrightarrow> cfg_pooling_mode cfg \<in> set POOLING_MODES
                        \<and> cfg_activation cfg \<in> set ACTIVATIONS" using fresh by simp
    have 6: "\<forall>blk\<in>set heap'. has_linear (blk_layers blk)
                        \<longrightarrow> cfg_initialization cfg \<in> set INITIALIZATIONS"
      using fresh li by auto
    have 7: "heap' \<noteq> [] \<longrightarrow> blk_batch_normalization (heap' ! 0) = cfg_batch_normalization cfg"
      using fresh b0 e by (cases heap) auto
    have 8: "\<forall>k. 0 < k \<and> k < length heap' \<longrightarrow> \<not> blk_batch_normalization (heap' ! k)"
    proof (intro allI impI)
      fix k assume k: "0 < k \<and> k < length heap'"
      show "\<not> blk_batch_normalization (heap' ! k)"
      proof (cases "k < length heap")
        case True
        with k bk fresh show ?thesis by (simp add: nth_append)
      next
        case False
        with k fresh have "k = length heap" "heap \<noteq> []" by auto
        with fresh e show ?thesis by simp
      qed
    qed
    from 1 2 3 4 5 6 7 8 show ?thesis unfolding st' stack_inv_def by simp
  qed
qed

lemma create_stack_inv:
  assumes "create_stack cfg = Inr st"
  shows "stack_inv cfg st"
proof -
  have "stack_inv cfg ([], [])" by (simp add: stack_inv_def)
  with assms show ?thesis
    unfolding create_stack_def
    using stacks_loop_inv[of "stack_inv cfg" cfg] stack_inv_create_block by blast
qed

lemma stack_offset_Suc:
  "i < length (cfg_n_blocks cfg) \<Longrightarrow>
     stack_offset cfg (Suc i) = stack_offset cfg i + cfg_n_blocks cfg ! i"
  by (simp add: stack_offset_def take_Suc_conv_app_nth)

lemma stack_offset_mono:
  "k \<le> i \<Longrightarrow> stack_offset cfg k \<le> stack_offset cfg i"
proof -
  assume "k \<le> i"
  then have "take i (cfg_n_blocks cfg)
      = take k (cfg_n_blocks cfg) @ take (i - k) (drop k (cfg_n_blocks cfg))"
    by (metis le_add_diff_inverse take_add)
  then show ?thesis by (simp add: stack_offset_def)
qed

lemma blocks_loop_shared_tail:
  assumes sh: "cfg_shared_weights cfg"
  shows "\<forall>block_id\<in>set ids. 0 < block_id \<Longrightarrow> bl \<noteq> [] \<Longrightarrow>
     blocks_loop cfg i ids (heap, bl) = Inr (heap', bl') \<Longrightarrow>
     heap' = heap \<and> bl' = bl @ replicate (length ids) (last bl)"
proof (induction ids arbitrary: bl)
  case Nil
  then show ?case by simp
next
  case (Cons block_id ids)
  then obtain heap1 bl1 where
    step: "create_block cfg i block_id (heap, bl) = Inr (heap1, bl1)"
    and rest: "blocks_loop cfg i ids (heap1, bl1) = Inr (heap', bl')"
    by (auto simp: ebind_eq_Inr)
  from create_block_Inr[OF step] sh Cons.prems(1)
  have 1: "heap1 = heap" "bl1 = bl @ [last bl]" by auto
  with Cons.IH[of bl1] Cons.prems(1) rest
  have "heap' = heap \<and> bl' = bl1 @ replicate (length ids) (last bl1)" by simp
  with 1 show ?case by (simp add: replicate_app_Cons_same)
qed

lemma blocks_loop_shared:
  assumes sh: "cfg_shared_weights cfg"
    and loop: "blocks_loop cfg i [0..<n] (heap, bl) = Inr (heap', bl')"
  shows "bl' = bl @ replicate n (length heap)"
proof (cases n)
  case 0
  with loop show ?thesis by simp
next
  case (Suc m)
  then have upt: "[0..<n] = 0 # [Suc 0..<Suc m]" by (simp add: upt_rec)
  with loop obtain heap1 bl1 where
    step: "create_block cfg i 0 (heap, bl) = Inr (heap1, bl1)"
    and rest: "blocks_loop cfg i [Suc 0..<Suc m] (heap1, bl1) = Inr (heap', bl')"
    by (auto simp: ebind_eq_Inr)
  from create_block_Inr[OF step] have bl1: "bl1 = bl @ [length heap]" by auto
  have "\<forall>block_id\<in>set [Suc 0..<Suc m]. 0 < block_id" by auto
  from blocks_loop_shared_tail[OF sh this _ rest] bl1
  have "bl' = bl1 @ replicate m (length heap)" by simp
  with bl1 Suc show ?thesis by (simp add: replicate_app_Cons_same)
qed

lemma stacks_loop_runs:
  assumes sh: "cfg_shared_weights cfg"
  shows "stacks_loop cfg [i..<S] (heap, bl) = Inr (heap', bl') \<Longrightarrow> stack_runs cfg i bl \<Longrightarrow>
     stack_runs cfg (max i S) bl'"
proof (induction "S - i" arbitrary: i heap bl)
  case 0
  then show ?case by (simp add: max_def)
next
  case (Suc n)
  then have iS: "i < S" and n: "n = S - Suc i" by simp_all
  then have upt: "[i..<S] = i # [Suc i..<S]" by (simp add: upt_rec)
  let ?nb = "cfg_n_blocks cfg"
  from Suc.prems(1) upt obtain heap1 bl1 where
    i: "i < length ?nb"
    and blocks: "blocks_loop cfg i [0..<?nb ! i] (heap, bl) = Inr (heap1, bl1)"
    and rest: "stacks_loop cfg [Suc i..<S] (heap1, bl1) = Inr (heap', bl')"
    by (auto simp: ebind_eq_Inr get_eq_Inr)
  from blocks_loop_shared[OF sh blocks]
  have bl1: "bl1 = bl @ replicate (?nb ! i) (length heap)" .
  from Suc.prems(2) have len: "length bl = stack_offset cfg i"
    and old: "\<forall>k<i. \<forall>j<?nb ! k. bl ! (stack_offset cfg k + j) = bl ! stack_offset cfg k"
    by (auto simp: stack_runs_def)
  have "stack_runs cfg (Suc i) bl1"
    unfolding stack_runs_def
  proof (intro conjI allI impI)
    show "length bl1 = stack_offset cfg (Suc i)"
      using bl1 len i by (simp add: stack_offset_Suc)
    show "Suc i \<le> length ?nb" using i by simp
  next
    fix k j assume k: "k < Suc i" and j: "j < ?nb ! k"
    show "bl1 ! (stack_offset cfg k + j) = bl1 ! stack_offset cfg k"
    proof (cases "k = i")
      case True
      with j bl1 len show ?thesis by (simp add: nth_append)
    next
      case False
      with k have ki: "k < i" by simp
      then have "k < length ?nb" using i by simp
      then have "stack_offset cfg k + ?nb ! k = stack_offset cfg (Suc k)"
        by (simp add: stack_offset_Suc)
      also have "\<dots> \<le> stack_offset cfg i" using ki by (simp add: stack_offset_mono)
      finally have "stack_offset cfg k + j < length bl" using j len by simp
      then show ?thesis using old ki j bl1 by (simp add: nth_append)
    qed
  qed
  from Suc.hyps(1)[OF n rest this] iS show ?case by (simp add: max_def)
qed

lemmas create_stack_eval =
  create_stack_def create_block_def ebind_def get_def floor_div_def IdentityBasis_init_def
  NHITSBlock_init_def ACTIVATIONS_def n_time_in_pooled_def hidden_layer_step_def
  make_output_layer_def upt_rec HiddenFeaturesLinearEncoder_init_def
  HiddenFeaturesUpsampleEncoder_init_def HiddenFeaturesDownSampleEncoder_init_def
  layers_apply_def init_weights_def

lemma example_config_stack:
  "\<exists>heap. create_stack example_config = Inr (heap, [0, 0, 1])"
  by (simp add: example_config_def create_stack_eval)

lemma example_config_unshared_stack:
  "\<exists>heap. create_stack (example_config\<lparr>cfg_shared_weights := False\<rparr>) = Inr (heap, [0, 1, 2])"
  by (simp add: example_config_def create_stack_eval)
















text \<open>
  Claim C9. With weight sharing enabled, whenever \<^verbatim>\<open>create_stack\<close> returns, the block
  list holds \<^verbatim>\<open>n_blocks[i]\<close> entries for stack \<open>i\<close>, one stack after the other, and every
  entry of a stack is the same reference as the first entry of that stack: the same
  object of the store, not a copy.
\<close>

theorem shared_weights_alias:
  assumes "cfg_shared_weights cfg" and "create_stack cfg = Inr (heap, block_list)"
  shows "length block_list = stack_offset cfg (length (cfg_stack_types cfg))
       \<and> (\<forall>i<length (cfg_stack_types cfg). \<forall>j<cfg_n_blocks cfg ! i.
             block_list ! (stack_offset cfg i + j) = block_list ! stack_offset cfg i)
       \<and> (\<forall>r\<in>set block_list. r < length heap)"
proof -
  have "stack_runs cfg 0 []" by (simp add: stack_runs_def stack_offset_def)
  with assms have "stack_runs cfg (max 0 (length (cfg_stack_types cfg))) block_list"
    unfolding create_stack_def using stacks_loop_runs by blast
  moreover from create_stack_inv[OF assms(2)] have "\<forall>r\<in>set block_list. r < length heap"
    by (simp add: stack_inv_def)
  ultimately show ?thesis by (simp add: stack_runs_def)
qed

theorem shared_weights_alias_witness:
  "\<exists>heap. create_stack example_config = Inr (heap, [0, 0, 1])
     \<and> [0, 0, 1::nat] ! (stack_offset example_config 0 + 1)
         = [0, 0, 1] ! stack_offset example_config 0"
proof -
  from example_config_stack obtain heap where
    c: "create_stack example_config = Inr (heap, [0, 0, 1])" by blast
  have sh: "cfg_shared_weights example_config" by (simp add: example_config_def)
  from shared_weights_alias[OF sh c]
  have "\<forall>i<length (cfg_stack_types example_config). \<forall>j<cfg_n_blocks example_config ! i.
          [0, 0, 1::nat] ! (stack_offset example_config i + j)
            = [0, 0, 1] ! stack_offset example_config i" by blast
  moreover have "0 < length (cfg_stack_types example_config)"
    "1 < cfg_n_blocks example_config ! 0" by (simp_all add: example_config_def)
  ultimately have "[0, 0, 1::nat] ! (stack_offset example_config 0 + 1)
         = [0, 0, 1] ! stack_offset example_config 0" by blast
  with c show ?thesis by blast
qed

subsection \<open>Construction: which errors a constructor call can raise\<close>

lemma create_block_Inl:
  assumes "create_block cfg i block_id (heap, bl) = Inl (AssertionError a)"
  shows "(a = Block_type \<and> i < length (cfg_stack_types cfg)
            \<and> cfg_stack_types cfg ! i \<noteq> ''identity'')
       \<or> a = Interpolation_mode
       \<or> (a = Pooling_mode \<and> cfg_pooling_mode cfg \<notin> set POOLING_MODES)
       \<or> (a = Activation_name \<and> cfg_activation cfg \<notin> set ACTIVATIONS)
       \<or> (a = Initialization_name \<and> cfg_initialization cfg \<notin> set INITIALIZATIONS)"
proof -
  let ?apply = "\<lambda>(heap, nbeats_block).
           ebind (get heap nbeats_block) (\<lambda>blk.
           ebind (layers_apply (blk_layers blk) (cfg_initialization cfg))
             (\<lambda>_. Inr (heap, bl @ [nbeats_block])))"
  have ap: "?apply p = Inl (AssertionError a) \<Longrightarrow>
      a = Initialization_name \<and> cfg_initialization cfg \<notin> set INITIALIZATIONS"
    for p :: "NHITSBlock list \<times> nat"
    by (cases p) (auto simp: ebind_eq_Inl get_def dest: layers_apply_Inl split: if_splits)
  show ?thesis
  proof (cases "cfg_shared_weights cfg \<and> 0 < block_id")
    case True
    with assms have "?apply (heap, last bl) = Inl (AssertionError a)"
      by (auto simp: create_block_def ebind_eq_Inl split: if_splits)
    from ap[OF this] show ?thesis by simp
  next
    case False
    show ?thesis
      using assms False
      unfolding create_block_def Let_def
      apply (simp add: ebind_eq_Inl get_def floor_div_def IdentityBasis_init_def POOLING_MODES_def
          split: if_splits prod.splits)
      apply (auto dest!: NHITSBlock_init_Inl layers_apply_Inl)
      done
  qed
qed

lemma blocks_loop_Inl:
  "blocks_loop cfg i ids st = Inl e \<Longrightarrow> \<exists>block_id st1. create_block cfg i block_id st1 = Inl e"
  by (induction ids arbitrary: st) (auto simp: ebind_eq_Inl)

lemma stacks_loop_Inl:
  "stacks_loop cfg is st = Inl e \<Longrightarrow>
     e = IndexError \<or> (\<exists>i\<in>set is. \<exists>block_id st1. create_block cfg i block_id st1 = Inl e)"
proof (induction "is" arbitrary: st)
  case Nil
  then show ?case by simp
next
  case (Cons i "is")
  from Cons.prems consider (index) "get (cfg_n_blocks cfg) i = Inl e"
    | (blocks) n where "blocks_loop cfg i [0..<n] st = Inl e"
    | (rest) st1 where "stacks_loop cfg is st1 = Inl e"
    by (auto simp: ebind_eq_Inl)
  then show ?case
  proof cases
    case index
    then show ?thesis by (simp add: get_def split: if_splits)
  next
    case blocks
    from blocks_loop_Inl[OF this] show ?thesis by auto
  next
    case rest
    from Cons.IH[OF this] show ?thesis by auto
  qed
qed

lemma blocks_loop_heap:
  "blocks_loop cfg i ids (heap, bl) = Inr (heap', bl') \<Longrightarrow> length heap \<le> length heap'"
proof (induction ids arbitrary: heap bl)
  case Nil
  then show ?case by simp
next
  case (Cons block_id ids)
  then obtain heap1 bl1 where
    step: "create_block cfg i block_id (heap, bl) = Inr (heap1, bl1)"
    and rest: "blocks_loop cfg i ids (heap1, bl1) = Inr (heap', bl')"
    by (auto simp: ebind_eq_Inr)
  from create_block_Inr[OF step] have "length heap \<le> length heap1" by auto
  with Cons.IH[OF rest] show ?case by simp
qed

lemma blocks_loop_first:
  assumes "blocks_loop cfg i [0..<n] (heap, bl) = Inr (heap', bl')" and "0 < n"
  shows "i < length (cfg_stack_types cfg) \<and> cfg_stack_types cfg ! i = ''identity''
       \<and> heap' \<noteq> []"
proof -
  from assms(2) have "[0..<n] = 0 # [Suc 0..<n]" by (simp add: upt_rec)
  with assms(1) obtain heap1 bl1 where
    step: "create_block cfg i 0 (heap, bl) = Inr (heap1, bl1)"
    and rest: "blocks_loop cfg i [Suc 0..<n] (heap1, bl1) = Inr (heap', bl')"
    by (auto simp: ebind_eq_Inr)
  from create_block_Inr[OF step] have "i < length (cfg_stack_types cfg)"
    "cfg_stack_types cfg ! i = ''identity''" "heap1 \<noteq> []" by auto
  with blocks_loop_heap[OF rest] show ?thesis by auto
qed

lemma stacks_loop_heap:
  "stacks_loop cfg is (heap, bl) = Inr (heap', bl') \<Longrightarrow>
     length heap \<le> length heap'
     \<and> (\<forall>i\<in>set is. i < length (cfg_n_blocks cfg)
           \<and> (0 < cfg_n_blocks cfg ! i \<longrightarrow>
                 i < length (cfg_stack_types cfg) \<and> cfg_stack_types cfg ! i = ''identity''
                 \<and> heap' \<noteq> []))"
proof (induction "is" arbitrary: heap bl)
  case Nil
  then show ?case by simp
next
  case (Cons i "is")
  then obtain heap1 bl1 where
    i: "i < length (cfg_n_blocks cfg)"
    and blocks: "blocks_loop cfg i [0..<cfg_n_blocks cfg ! i] (heap, bl) = Inr (heap1, bl1)"
    and rest: "stacks_loop cfg is (heap1, bl1) = Inr (heap', bl')"
    by (auto simp: ebind_eq_Inr get_eq_Inr)
  from Cons.IH[OF rest] have ih: "length heap1 \<le> length heap'"
    "\<forall>i\<in>set is. i < length (cfg_n_blocks cfg)
           \<and> (0 < cfg_n_blocks cfg ! i \<longrightarrow>
                 i < length (cfg_stack_types cfg) \<and> cfg_stack_types cfg ! i = ''identity''
                 \<and> heap' \<noteq> [])" by simp_all
  from blocks_loop_heap[OF blocks] ih(1) have le: "length heap \<le> length heap'" by simp
  have "0 < cfg_n_blocks cfg ! i \<longrightarrow>
          i < length (cfg_stack_types cfg) \<and> cfg_stack_types cfg ! i = ''identity''
          \<and> heap' \<noteq> []"
    using blocks_loop_first[OF blocks] ih(1) by auto
  with i ih(2) le show ?case by simp
qed

lemma NHITSBlock_init_activation:
  assumes "pooling_mode \<in> set POOLING_MODES" "n_pool_kernel_size \<noteq> 0"
    "activation \<notin> set ACTIVATIONS"
  shows "NHITSBlock_init n_time_in n_time_out n_x n_s n_s_hidden n_theta n_theta_hidden
       n_pool_kernel_size n_freq_downsample pooling_mode layer_mode output_layer basis
       n_layers bn dropout_prob activation = Inl (AssertionError Activation_name)"
  using assms unfolding NHITSBlock_init_def POOLING_MODES_def Let_def by simp

text \<open>
  Claim C5, as amended.
  \<^item> A pooling mode or an activation name outside its list makes \<^verbatim>\<open>create_stack\<close> raise
    as soon as one stack asks for a block; the block constructor raises the assertion
    on the pooling mode first, and the assertion on the activation after the division
    by the pooling kernel size.
  \<^item> A stack type other than \<^verbatim>\<open>identity\<close> makes \<^verbatim>\<open>create_stack\<close> raise when that stack
    asks for a block.
  \<^item> An initialisation name outside its list is refused by \<^verbatim>\<open>init_weights\<close> on a linear
    module only: when \<^verbatim>\<open>create_stack\<close> returns in spite of such a name, no block it
    constructed holds a linear module.
  \<^item> With the four names inside their lists \<^verbatim>\<open>create_stack\<close> raises none of the four
    assertions. (Other errors remain possible.)
\<close>

theorem configuration_errors:
  "((cfg_pooling_mode cfg \<notin> set POOLING_MODES \<or> cfg_activation cfg \<notin> set ACTIVATIONS)
      \<and> (\<exists>i<length (cfg_stack_types cfg). 0 < cfg_n_blocks cfg ! i)
      \<longrightarrow> isl (create_stack cfg))
   \<and> ((\<exists>i<length (cfg_stack_types cfg).
          cfg_stack_types cfg ! i \<noteq> ''identity'' \<and> 0 < cfg_n_blocks cfg ! i)
      \<longrightarrow> isl (create_stack cfg))
   \<and> (cfg_initialization cfg \<notin> set INITIALIZATIONS
      \<longrightarrow> (\<forall>heap block_list. create_stack cfg = Inr (heap, block_list)
             \<longrightarrow> (\<forall>blk\<in>set heap. \<not> has_linear (blk_layers blk))))
   \<and> (cfg_pooling_mode cfg \<in> set POOLING_MODES \<and> cfg_activation cfg \<in> set ACTIVATIONS
        \<and> cfg_initialization cfg \<in> set INITIALIZATIONS
        \<and> (\<forall>t\<in>set (cfg_stack_types cfg). t = ''identity'')
      \<longrightarrow> (\<forall>a\<in>{Pooling_mode, Activation_name, Initialization_name, Block_type}.
             create_stack cfg \<noteq> Inl (AssertionError a)))
   \<and> (pooling_mode \<notin> set POOLING_MODES
      \<longrightarrow> NHITSBlock_init n_time_in n_time_out n_x n_s n_s_hidden n_theta n_theta_hidden
            n_pool_kernel_size n_freq_downsample pooling_mode layer_mode output_layer basis
            n_layers bn dropout_prob activation = Inl (AssertionError Pooling_mode))
   \<and> (pooling_mode \<in> set POOLING_MODES \<and> n_pool_kernel_size \<noteq> 0
        \<and> activation \<notin> set ACTIVATIONS
      \<longrightarrow> NHITSBlock_init n_time_in n_time_out n_x n_s n_s_hidden n_theta n_theta_hidden
            n_pool_kernel_size n_freq_downsample pooling_mode layer_mode output_layer basis
            n_layers bn dropout_prob activation = Inl (AssertionError Activation_name))
   \<and> (initialization \<notin> set INITIALIZATIONS
      \<longrightarrow> init_weights (Linear i out) initialization = Inl (AssertionError Initialization_name))"
proof -
  let ?S = "length (cfg_stack_types cfg)"
  have succ: "\<forall>i<?S. i < length (cfg_n_blocks cfg)
           \<and> (0 < cfg_n_blocks cfg ! i \<longrightarrow> cfg_stack_types cfg ! i = ''identity'' \<and> heap \<noteq> [])"
    if "create_stack cfg = Inr (heap, bl)" for heap bl
    using stacks_loop_heap[OF that[unfolded create_stack_def]] by simp
  have inv: "stack_inv cfg (heap, bl)" if "create_stack cfg = Inr (heap, bl)" for heap bl
    using create_stack_inv[OF that] .
  have A: "isl (create_stack cfg)"
    if bad: "cfg_pooling_mode cfg \<notin> set POOLING_MODES \<or> cfg_activation cfg \<notin> set ACTIVATIONS"
      and blk: "\<exists>i<?S. 0 < cfg_n_blocks cfg ! i"
  proof (cases "create_stack cfg")
    case (Inr st)
    obtain heap bl where st: "st = (heap, bl)" by (cases st)
    from succ[OF Inr[unfolded st]] blk have "heap \<noteq> []" by blast
    with inv[OF Inr[unfolded st]] bad show ?thesis by (auto simp: stack_inv_def)
  qed simp
  have B: "isl (create_stack cfg)"
    if "\<exists>i<?S. cfg_stack_types cfg ! i \<noteq> ''identity'' \<and> 0 < cfg_n_blocks cfg ! i"
  proof (cases "create_stack cfg")
    case (Inr st)
    obtain heap bl where st: "st = (heap, bl)" by (cases st)
    from succ[OF Inr[unfolded st]] that show ?thesis by blast
  qed simp
  have C: "\<forall>blk\<in>set heap. \<not> has_linear (blk_layers blk)"
    if "cfg_initialization cfg \<notin> set INITIALIZATIONS" "create_stack cfg = Inr (heap, bl)"
    for heap bl
    using inv[OF that(2)] that(1) by (auto simp: stack_inv_def)
  have D: "create_stack cfg \<noteq> Inl (AssertionError a)"
    if ok: "cfg_pooling_mode cfg \<in> set POOLING_MODES" "cfg_activation cfg \<in> set ACTIVATIONS"
      "cfg_initialization cfg \<in> set INITIALIZATIONS"
      "\<forall>t\<in>set (cfg_stack_types cfg). t = ''identity''"
      and a: "a \<in> {Pooling_mode, Activation_name, Initialization_name, Block_type}" for a
  proof
    assume "create_stack cfg = Inl (AssertionError a)"
    from stacks_loop_Inl[OF this[unfolded create_stack_def]] obtain i block_id heap bl where
      "create_block cfg i block_id (heap, bl) = Inl (AssertionError a)" by auto
    from create_block_Inl[OF this] ok a show False by auto
  qed
  have E: "init_weights (Linear i out) initialization = Inl (AssertionError Initialization_name)"
    if "initialization \<notin> set INITIALIZATIONS"
    using that by (simp add: init_weights_def INITIALIZATIONS_def)
  show ?thesis
    apply (intro conjI impI)
    subgoal using A by blast
    subgoal using B by blast
    subgoal using C by blast
    subgoal using D by blast
    subgoal by (simp add: NHITSBlock_init_pooling POOLING_MODES_def)
    subgoal by (simp add: NHITSBlock_init_activation)
    subgoal using E by blast
    done
qed

theorem configuration_errors_witness:
  "isl (create_stack (example_config\<lparr>cfg_pooling_mode := ''avg''\<rparr>))
   \<and> create_stack (example_config\<lparr>cfg_pooling_mode := ''avg''\<rparr>)
       = Inl (AssertionError Pooling_mode)"
proof -
  let ?cfg = "example_config\<lparr>cfg_pooling_mode := ''avg''\<rparr>"
  have bad: "cfg_pooling_mode ?cfg \<notin> set POOLING_MODES \<or> cfg_activation ?cfg \<notin> set ACTIVATIONS"
    by (simp add: example_config_def POOLING_MODES_def)
  have blk: "\<exists>i<length (cfg_stack_types ?cfg). 0 < cfg_n_blocks ?cfg ! i"
    by (rule exI[of _ 0]) (simp add: example_config_def)
  from configuration_errors[where cfg = ?cfg, THEN conjunct1] bad blk
  have "isl (create_stack ?cfg)" by blast
  moreover have "create_stack ?cfg = Inl (AssertionError Pooling_mode)"
    by (simp add: example_config_def create_stack_eval)
  ultimately show ?thesis by blast
qed

text \<open>
  Claim C5 as stated fails for the initialisation name: in \<^verbatim>\<open>conv\<close> layer mode with a
  \<^verbatim>\<open>max\<close> output layer the blocks hold convolutions and a pooling only, and
  \<^verbatim>\<open>create_stack\<close> returns its three blocks although the name is unknown.
\<close>

theorem unknown_initialization_counterexample:
  "cfg_initialization conv_config \<notin> set INITIALIZATIONS
   \<and> \<not> isl (create_stack conv_config)
   \<and> map_sum id snd (create_stack conv_config) = Inr [0, 0, 1]"
  by (simp add: conv_config_def example_config_def INITIALIZATIONS_def create_stack_eval)

subsection \<open>Pooling\<close>

lemma each_row_Inr:
  "each_row f xs = Inr ys \<Longrightarrow> length ys = length xs \<and> (\<forall>i<length xs. f (xs ! i) = Inr (ys ! i))"
proof (induction xs arbitrary: ys)
  case Nil
  then show ?case by simp
next
  case (Cons x xs)
  then obtain y ys' where y: "f x = Inr y" and r: "each_row f xs = Inr ys'" and ys: "ys = y # ys'"
    by (auto simp: ebind_eq_Inr)
  from Cons.IH[OF r] y ys show ?case by (auto simp: nth_Cons split: nat.splits)
qed

lemma unfold_Inr:
  assumes "unfold k k xs = Inr ws"
  shows "0 < k \<and> k \<le> length xs \<and> length ws = length xs div k
       \<and> (\<forall>j<length ws. ws ! j = take k (drop (j * k) xs))"
proof -
  from assms have k: "0 < k" "k \<le> length xs"
    and ws: "ws = map (\<lambda>j. take k (drop (j * k) xs)) [0..<(length xs - k) div k + 1]"
    by (auto simp: unfold_def split: if_splits)
  from k have "(length xs - k) div k + 1 = length xs div k"
    by (simp add: le_div_geq)
  with ws have ws': "ws = map (\<lambda>j. take k (drop (j * k) xs)) [0..<length xs div k]"
    by (simp del: upt_Suc)
  with k show ?thesis by simp
qed

text \<open>The length that both pooling layers give a row is the quotient rounded down.\<close>

lemma MaxPool1d_forward_length:
  assumes "MaxPool1d_forward k k x = Inr y"
  shows "length y = length x \<and> (\<forall>b<length x. length (y ! b) = length (x ! b) div k)"
proof -
  let ?f = "\<lambda>row. ebind (unfold k k row) (\<lambda>ws. Inr (map (\<lambda>w. fold max (tl w) (hd w)) ws))"
  from assms have "each_row ?f x = Inr y"
    by (simp add: MaxPool1d_forward_def split: if_splits)
  from each_row_Inr[OF this] have len: "length y = length x"
    and row: "\<forall>b<length x. ?f (x ! b) = Inr (y ! b)" by simp_all
  have "length (y ! b) = length (x ! b) div k" if "b < length x" for b
  proof -
    from row that obtain ws where u: "unfold k k (x ! b) = Inr ws"
      and y: "y ! b = map (\<lambda>w. fold max (tl w) (hd w)) ws"
      by (auto simp: ebind_eq_Inr)
    from unfold_Inr[OF u] y show ?thesis by simp
  qed
  with len show ?thesis by simp
qed


lemma view2_Inr:
  assumes "view2 b w flat = Inr y"
  shows "length y = b \<and> b * w = length flat
       \<and> (\<forall>r<b. length (y ! r) = w \<and> (\<forall>j<w. y ! r ! j = flat ! (r * w + j)))"
proof -
  from assms have len: "b * w = length flat"
    and y: "y = map (\<lambda>r. take w (drop (r * w) flat)) [0..<b]"
    by (auto simp: view2_def split: if_splits)
  have "length (y ! r) = w \<and> (\<forall>j<w. y ! r ! j = flat ! (r * w + j))" if r: "r < b" for r
  proof -
    from r have "Suc r * w \<le> b * w" by (metis Suc_leI mult_le_mono1)
    with len have "r * w + w \<le> length flat" by simp
    with y r show ?thesis by (auto simp: min_def)
  qed
  with y len show ?thesis by simp
qed

text \<open>What the code does: every output element is read at the drawn offset in the
  first window of the first row.\<close>

lemma StochasticPool1D_forward_first_window:
  assumes run: "StochasticPool1D_forward k k idx (row0 # rest) = Inr y"
    and idx: "\<forall>i\<in>set idx. i < k"
  shows "length y = Suc (length rest)
       \<and> (\<forall>b<length y. length (y ! b) = length row0 div k
             \<and> (\<forall>j<length row0 div k. y ! b ! j = row0 ! (idx ! (b * (length row0 div k) + j))))"
proof -
  let ?W = "length row0 div k"
  from run obtain ws flat where
    k: "k \<noteq> 0"
    and ws: "each_row (unfold k k) (row0 # rest) = Inr ws"
    and tk: "take_flat (concat (concat ws)) idx = Inr flat"
    and v: "view2 (Suc (length rest)) ?W flat = Inr y"
    by (auto simp: StochasticPool1D_forward_def Let_def ebind_eq_Inr split: if_splits)
  from ws obtain w0 ws' where w0: "unfold k k row0 = Inr w0" and ws': "ws = w0 # ws'"
    by (auto simp: ebind_eq_Inr)
  from unfold_Inr[OF w0] have kl: "k \<le> length row0" and l0: "length w0 = ?W"
    and win: "\<forall>j<length w0. w0 ! j = take k (drop (j * k) row0)" by simp_all
  from k kl have "0 < ?W" by (simp add: div_greater_zero_iff)
  with l0 win have "w0 ! 0 = take k row0" and "w0 \<noteq> []" by auto
  then obtain w0' where "w0 = take k row0 # w0'" by (cases w0) auto
  with ws' have fl: "concat (concat ws) = take k row0 @ concat (w0' @ concat ws')" by simp
  have first: "concat (concat ws) ! i = row0 ! i" if "i < k" for i
    using that kl by (simp add: fl nth_append)
  from tk have flat: "flat = map (\<lambda>i. concat (concat ws) ! i) idx"
    by (auto simp: take_flat_def split: if_splits)
  have fn: "flat ! n = row0 ! (idx ! n)" if "n < length idx" for n
    using that idx first by (simp add: flat)
  from view2_Inr[OF v] have ly: "length y = Suc (length rest)"
    and lf: "Suc (length rest) * ?W = length flat"
    and rows: "\<forall>r<Suc (length rest). length (y ! r) = ?W
                 \<and> (\<forall>j<?W. y ! r ! j = flat ! (r * ?W + j))" by simp_all
  have "length (y ! b) = ?W \<and> (\<forall>j<?W. y ! b ! j = row0 ! (idx ! (b * ?W + j)))"
    if b: "b < length y" for b
  proof (intro conjI allI impI)
    from b ly rows show "length (y ! b) = ?W" by simp
  next
    fix j assume j: "j < ?W"
    from b ly have "Suc b * ?W \<le> Suc (length rest) * ?W" by (metis Suc_leI mult_le_mono1)
    with j lf flat have "b * ?W + j < length idx" by simp
    from fn[OF this] rows b ly j show "y ! b ! j = row0 ! (idx ! (b * ?W + j))" by simp
  qed
  with ly show ?thesis by simp
qed

text \<open>
  Claim C4 on the code. The window is \<open>n_time_in = 5\<close> and the pooling kernel is 2:
  \<^verbatim>\<open>nn.MaxPool1d\<close> and \<^verbatim>\<open>StochasticPool1D\<close> both return rows of length 2, and
  \<^verbatim>\<open>n_time_in_pooled\<close> is 3. A block constructed for these sizes with \<^verbatim>\<open>max\<close> pooling
  has a first linear layer of 3 input features, and its forward pass raises on the
  pooled row of length 2.
\<close>

theorem pooled_length_failing_input:
  "MaxPool1d_forward 2 2 [[1, 2, 3, 4, 5::int]] = Inr [[2, 4]]
   \<and> StochasticPool1D_forward 2 2 [1, 0] [[1, 2, 3, 4, 5::int]] = Inr [[2, 1]]
   \<and> n_time_in_pooled 5 2 = 3
   \<and> \<not> isl (NHITSBlock_init 5 2 0 0 0 7 [8] 2 1 ''max'' ''linear'' ''linear''
              \<lparr>basis_forecast_size = 2, basis_backcast_size = 5,
                 basis_interpolation_mode = ''linear''\<rparr> 1 False 0 ''ReLU'')
   \<and> ebind (NHITSBlock_init 5 2 0 0 0 7 [8] 2 1 ''max'' ''linear'' ''linear''
              \<lparr>basis_forecast_size = 2, basis_backcast_size = 5,
                 basis_interpolation_mode = ''linear''\<rparr> 1 False 0 ''ReLU'')
        (\<lambda>blk. NHITSBlock_forward_width True 1 blk 5 0 0) = Inl RuntimeError"
  by (simp add: MaxPool1d_forward_def StochasticPool1D_forward_def unfold_def take_flat_def
        view2_def upt_rec n_time_in_pooled_def NHITSBlock_init_def ACTIVATIONS_def
        hidden_layer_step_def get_def make_output_layer_def HiddenFeaturesLinearEncoder_init_def
        NHITSBlock_forward_width_def)

text \<open>
  Claim C8 on the code. Two rows of four elements, kernel size 2, and the offsets
  \<open>[1, 0, 0, 1]\<close> drawn for the four windows: the source returns \<open>[[2, 1], [1, 2]]\<close>,
  every element read in the first window \<open>[1, 2]\<close> of the first row, because
  \<^verbatim>\<open>torch.take\<close> indexes the flattened tensor. The claim asks for \<open>[[2, 3], [5, 8]]\<close>.
\<close>

theorem stochastic_pool_failing_input:
  "StochasticPool1D_forward 2 2 [1, 0, 0, 1] [[1, 2, 3, 4::int], [5, 6, 7, 8]]
     = Inr [[2, 1], [1, 2]]
   \<and> stochastic_pool_spec 2 [1, 0, 0, 1] [[1, 2, 3, 4::int], [5, 6, 7, 8]] = [[2, 3], [5, 8]]"
  by (simp add: StochasticPool1D_forward_def unfold_def take_flat_def view2_def upt_rec
        stochastic_pool_spec_def)

subsection \<open>The identity basis\<close>

lemma length_interpolate_nearest [simp]: "length (interpolate_nearest sz knots) = sz"
  by (simp add: interpolate_nearest_def)

lemma length_interpolate_linear [simp]: "length (interpolate_linear sz knots) = sz"
  by (simp add: interpolate_linear_def)

lemma length_interpolate_bicubic [simp]: "length (interpolate_bicubic sz knots) = sz"
  by (simp add: interpolate_bicubic_def)

lemma F_interpolate_Inr:
  assumes "0 < sz" "\<forall>row\<in>set x. row \<noteq> []"
  shows "F_interpolate mode sz x = Inr (map (mode sz) x)"
  using assms by (auto simp: F_interpolate_def list_ex_iff)

lemma map2_add_zeros:
  fixes r :: "real list"
  shows "length r = n \<Longrightarrow> map2 (+) (replicate n 0) r = r"
  by (induction r arbitrary: n) auto

lemma map2_rows_zeros:
  fixes v :: "real list list"
  assumes "\<forall>r\<in>set v. length r = n" "length v = m"
  shows "map2 (map2 (+)) (replicate m (replicate n 0)) v = v"
  using assms
proof (induction v arbitrary: m)
  case Nil
  then show ?case by simp
next
  case (Cons r v)
  then obtain m' where m: "m = Suc m'" by (cases m) auto
  with Cons show ?case by (simp add: map2_add_zeros)
qed

lemma cubic_step:
  assumes fs: "0 < fs" and rows: "\<forall>row\<in>set knots. row \<noteq> []"
  shows "ebind (F_interpolate interpolate_bicubic fs (slice (i * bs) ((i + 1) * bs) knots))
           (\<lambda>forecast_i. slice_iadd (cubic_buffer fs bs knots i) (i * bs) ((i + 1) * bs) forecast_i)
         = Inr (cubic_buffer fs bs knots (Suc i))"
proof -
  let ?f = "interpolate_bicubic fs" and ?z = "replicate fs (0::real)"
  let ?N = "length knots" and ?lo = "i * bs"
  let ?chunk = "take bs (drop ?lo knots)"
  let ?D = "map ?f (take ?lo knots)"
  have hi: "(i + 1) * bs = ?lo + bs" by simp
  have sl: "slice ?lo (?lo + bs) knots = ?chunk" by (simp add: slice_def)
  have "\<forall>row\<in>set ?chunk. row \<noteq> []"
    using rows by (meson in_set_dropD in_set_takeD)
  from F_interpolate_Inr[OF fs this]
  have fi: "F_interpolate interpolate_bicubic fs ?chunk = Inr (map ?f ?chunk)" .
  have lenv: "length (map ?f ?chunk) = min bs (?N - ?lo)" by simp
  have rowsv: "\<forall>r\<in>set (map ?f ?chunk). length r = fs" by simp
  have next_done: "map ?f (take (?lo + bs) knots) = ?D @ map ?f ?chunk"
    by (simp add: take_add)
  show ?thesis
  proof (cases "?lo \<le> ?N")
    case True
    then have lenD: "length ?D = ?lo" by simp
    have buf: "cubic_buffer fs bs knots i = ?D @ replicate (?N - ?lo) ?z"
      by (simp add: cubic_buffer_def)
    have target: "slice ?lo (?lo + bs) (cubic_buffer fs bs knots i)
        = replicate (min bs (?N - ?lo)) ?z"
      unfolding buf slice_def using lenD by (simp add: min.commute)
    have shape: "map length (replicate (min bs (?N - ?lo)) ?z) = map length (map ?f ?chunk)"
      by (simp add: comp_def map_replicate_const min.commute)
    have tk: "take ?lo (cubic_buffer fs bs knots i) = ?D"
      unfolding buf using lenD by simp
    have dr: "drop (?lo + bs) (cubic_buffer fs bs knots i) = replicate (?N - (?lo + bs)) ?z"
      unfolding buf using lenD by simp
    have add: "map2 (map2 (+)) (replicate (min bs (?N - ?lo)) ?z) (map ?f ?chunk) = map ?f ?chunk"
      by (rule map2_rows_zeros[OF rowsv lenv])
    have "slice_iadd (cubic_buffer fs bs knots i) ?lo (?lo + bs) (map ?f ?chunk)
        = Inr (?D @ map ?f ?chunk @ replicate (?N - (?lo + bs)) ?z)"
      unfolding slice_iadd_def target using shape tk dr add by simp
    also have "\<dots> = Inr (cubic_buffer fs bs knots (Suc i))"
      using next_done by (simp add: cubic_buffer_def add.commute)
    finally show ?thesis unfolding hi sl fi ebind_Inr .
  next
    case False
    then have all: "take ?lo knots = knots" "?chunk = []" "?N - ?lo = 0" by simp_all
    then have buf: "cubic_buffer fs bs knots i = map ?f knots"
      by (simp add: cubic_buffer_def)
    from False have buf': "cubic_buffer fs bs knots (Suc i) = map ?f knots"
      by (simp add: cubic_buffer_def)
    have f0: "F_interpolate interpolate_bicubic fs [] = Inr []"
      using fs by (simp add: F_interpolate_def)
    from False have "slice_iadd (map ?f knots) ?lo (?lo + bs) [] = Inr (map ?f knots)"
      by (simp add: slice_iadd_def slice_def)
    then show ?thesis unfolding hi sl all(2) buf buf' f0 ebind_Inr .
  qed
qed

lemma cubic_loop_buffer:
  assumes fs: "0 < fs" and rows: "\<forall>row\<in>set knots. row \<noteq> []"
  shows "cubic_loop fs bs knots [i..<n] (cubic_buffer fs bs knots i)
           = Inr (cubic_buffer fs bs knots (max i n))"
proof (induction "n - i" arbitrary: i)
  case 0
  then have "n \<le> i" by simp
  then have "[i..<n] = []" "max i n = i" by simp_all
  then show ?case by (simp only: cubic_loop.simps)
next
  case (Suc m)
  then have "i < n" and m: "m = n - Suc i" by simp_all
  then have upt: "[i..<n] = i # [Suc i..<n]" and mx: "max (Suc i) n = max i n"
    by (simp_all add: upt_conv_Cons)
  have "cubic_loop fs bs knots [i..<n] (cubic_buffer fs bs knots i)
      = ebind (ebind (F_interpolate interpolate_bicubic fs (slice (i * bs) ((i + 1) * bs) knots))
           (\<lambda>forecast_i. slice_iadd (cubic_buffer fs bs knots i) (i * bs) ((i + 1) * bs) forecast_i))
          (cubic_loop fs bs knots [Suc i..<n])"
    unfolding upt by (simp add: ebind_def split: sum.splits)
  also have "\<dots> = cubic_loop fs bs knots [Suc i..<n] (cubic_buffer fs bs knots (Suc i))"
    by (simp only: cubic_step[OF fs rows] ebind_Inr)
  also have "\<dots> = Inr (cubic_buffer fs bs knots (max i n))"
    using Suc.hyps(1)[OF m] mx by simp
  finally show ?case .
qed

lemma n_batches_cover:
  assumes "0 < bs"
  shows "n \<le> nat \<lceil>real n / real bs\<rceil> * bs"
proof -
  let ?c = "\<lceil>real n / real bs\<rceil>"
  have "0 \<le> real n / real bs" by simp
  then have c0: "0 \<le> ?c" by (simp del: divide_nonneg_nonneg)
  have a: "real n \<le> real_of_int ?c * real bs"
    using pos_divide_le_eq[of "real bs" "real n" "real_of_int ?c"] assms by simp
  have b: "real_of_int ?c * real bs = real (nat ?c * bs)"
    using c0 by simp
  from a have "real n \<le> real (nat ?c * bs)" unfolding b .
  then show ?thesis by (simp only: of_nat_le_iff)
qed

lemma cubic_not_other:
  "\<not> sublist ''cubic'' ''nearest''" "\<not> sublist ''cubic'' ''linear''"
  by (simp_all add: sublist_code)

lemma cubic_loop_all:
  assumes bs: "0 < bs" and fs: "0 < fs" and rows: "\<forall>row\<in>set knots. row \<noteq> []"
  shows "cubic_loop fs bs knots [0..<nat \<lceil>real (length knots) / real bs\<rceil>]
           (replicate (length knots) (replicate fs 0))
         = Inr (map (interpolate_bicubic fs) knots)"
proof -
  let ?n = "nat \<lceil>real (length knots) / real bs\<rceil>"
  have start: "cubic_buffer fs bs knots 0 = replicate (length knots) (replicate fs 0)"
    by (simp add: cubic_buffer_def)
  from n_batches_cover[OF bs, of "length knots"]
  have stop: "cubic_buffer fs bs knots ?n = map (interpolate_bicubic fs) knots"
    by (simp add: cubic_buffer_def)
  from cubic_loop_buffer[OF fs rows, of bs 0 ?n] show ?thesis
    unfolding start by (simp only: max_0L stop)
qed

lemma IdentityBasis_forward_cubic:
  assumes cubic: "sublist ''cubic'' (basis_interpolation_mode self)"
    and bs: "py_int (split_last (basis_interpolation_mode self)) = Inr bs" "0 < bs"
    and fs: "0 < basis_forecast_size self"
    and rows: "\<forall>row\<in>set theta. basis_backcast_size self < length row"
  shows "IdentityBasis_forward self theta x1 x2
         = Inr (map (take (basis_backcast_size self)) theta,
                map (interpolate_bicubic (basis_forecast_size self))
                  (map (drop (basis_backcast_size self)) theta))"
proof -
  let ?knots = "map (drop (basis_backcast_size self)) theta"
  from cubic cubic_not_other have m: "basis_interpolation_mode self \<noteq> ''nearest''"
    "basis_interpolation_mode self \<noteq> ''linear''" by auto
  from rows have "\<forall>row\<in>set ?knots. row \<noteq> []" by auto
  from cubic_loop_all[OF bs(2) fs this] m cubic bs show ?thesis
    unfolding IdentityBasis_forward_def Let_def by simp
qed

text \<open>
  Claim C7. In a cubic mode whose suffix reads as a positive batch size, the loop over
  the sub-batches, accumulating into the buffer of zeros, ends with the bicubic
  interpolation of every row of knots; the forward pass returns the same pair for any
  two such batch sizes, and its forecast is the one of a single call of
  \<^verbatim>\<open>F.interpolate\<close> on the whole batch. (Exact arithmetic: over floating point the sum
  \<open>0 + x\<close> is \<open>x\<close> up to the sign of a zero.)
\<close>

theorem cubic_sub_batches:
  assumes cubic: "sublist ''cubic'' (basis_interpolation_mode self)"
      "sublist ''cubic'' (basis_interpolation_mode self')"
    and bs: "py_int (split_last (basis_interpolation_mode self)) = Inr batch_size"
      "0 < batch_size"
    and bs': "py_int (split_last (basis_interpolation_mode self')) = Inr batch_size'"
      "0 < batch_size'"
    and same: "basis_forecast_size self' = basis_forecast_size self"
      "basis_backcast_size self' = basis_backcast_size self"
    and fs: "0 < basis_forecast_size self"
    and rows: "\<forall>row\<in>set theta. basis_backcast_size self < length row"
  shows "IdentityBasis_forward self' theta x1 x2 = IdentityBasis_forward self theta x1 x2
       \<and> map_sum id snd (IdentityBasis_forward self theta x1 x2)
           = F_interpolate interpolate_bicubic (basis_forecast_size self)
               (map (drop (basis_backcast_size self)) theta)
       \<and> cubic_loop (basis_forecast_size self) batch_size
             (map (drop (basis_backcast_size self)) theta)
             [0..<nat \<lceil>real (length theta) / real batch_size\<rceil>]
             (replicate (length theta) (replicate (basis_forecast_size self) 0))
           = Inr (map (interpolate_bicubic (basis_forecast_size self))
                    (map (drop (basis_backcast_size self)) theta))"
proof -
  let ?knots = "map (drop (basis_backcast_size self)) theta"
  from rows have ne: "\<forall>row\<in>set ?knots. row \<noteq> []" by auto
  have 1: "IdentityBasis_forward self theta x1 x2
         = Inr (map (take (basis_backcast_size self)) theta,
                map (interpolate_bicubic (basis_forecast_size self)) ?knots)"
    by (rule IdentityBasis_forward_cubic[OF cubic(1) bs fs rows])
  have 2: "IdentityBasis_forward self' theta x1 x2
         = Inr (map (take (basis_backcast_size self)) theta,
                map (interpolate_bicubic (basis_forecast_size self)) ?knots)"
    using IdentityBasis_forward_cubic[OF cubic(2) bs', of theta x1 x2] fs rows same by simp
  have 3: "F_interpolate interpolate_bicubic (basis_forecast_size self) ?knots
         = Inr (map (interpolate_bicubic (basis_forecast_size self)) ?knots)"
    by (rule F_interpolate_Inr[OF fs ne])
  from cubic_loop_all[OF bs(2) fs ne] 1 2 3 show ?thesis by simp
qed

text \<open>
  Claim C6. For \<^verbatim>\<open>theta\<close> of \<open>backcast_size + knots_length\<close> columns, with at least one knot
  and a positive forecast size, in mode \<^verbatim>\<open>nearest\<close>, \<^verbatim>\<open>linear\<close> or cubic with a positive
  batch size: the forward pass returns, the backcast is the first \<open>backcast_size\<close>
  columns of \<^verbatim>\<open>theta\<close> unchanged, and backcast and forecast have one row per row of
  \<^verbatim>\<open>theta\<close>, of \<open>backcast_size\<close> and of \<open>forecast_size\<close> columns.
\<close>

theorem identity_basis_shapes:
  assumes mode: "basis_interpolation_mode self = ''nearest''
      \<or> basis_interpolation_mode self = ''linear''
      \<or> (sublist ''cubic'' (basis_interpolation_mode self)
          \<and> (\<exists>batch_size>0. py_int (split_last (basis_interpolation_mode self))
                = Inr batch_size))"
    and rows: "\<forall>row\<in>set theta. length row = basis_backcast_size self + knots_length"
    and sizes: "0 < knots_length" "0 < basis_forecast_size self"
  shows "\<exists>backcast forecast.
       IdentityBasis_forward self theta x1 x2 = Inr (backcast, forecast)
     \<and> backcast = map (take (basis_backcast_size self)) theta
     \<and> length backcast = length theta \<and> length forecast = length theta
     \<and> (\<forall>row\<in>set backcast. length row = basis_backcast_size self)
     \<and> (\<forall>row\<in>set forecast. length row = basis_forecast_size self)
     \<and> (\<forall>b<length theta. \<forall>t<basis_backcast_size self. backcast ! b ! t = theta ! b ! t)"
proof -
  let ?bc = "map (take (basis_backcast_size self)) theta"
  let ?knots = "map (drop (basis_backcast_size self)) theta"
  let ?fs = "basis_forecast_size self"
  from rows sizes have ne: "\<forall>row\<in>set ?knots. row \<noteq> []" by auto
  from rows sizes have lt: "\<forall>row\<in>set theta. basis_backcast_size self < length row" by auto
  have bc: "\<forall>row\<in>set ?bc. length row = basis_backcast_size self" using rows by auto
  have el: "\<forall>b<length theta. \<forall>t<basis_backcast_size self. ?bc ! b ! t = theta ! b ! t"
    by simp
  from mode consider (nearest) "basis_interpolation_mode self = ''nearest''"
    | (linear) "basis_interpolation_mode self = ''linear''"
    | (cubic) batch_size where "sublist ''cubic'' (basis_interpolation_mode self)"
        "py_int (split_last (basis_interpolation_mode self)) = Inr batch_size" "0 < batch_size"
    by blast
  then obtain kernel where
    run: "IdentityBasis_forward self theta x1 x2 = Inr (?bc, map (kernel ?fs) ?knots)"
    and len: "\<And>ks. length (kernel ?fs ks) = ?fs"
  proof cases
    case nearest
    with F_interpolate_Inr[OF sizes(2) ne, of interpolate_nearest]
    have "IdentityBasis_forward self theta x1 x2
        = Inr (?bc, map (interpolate_nearest ?fs) ?knots)"
      by (simp add: IdentityBasis_forward_def)
    then show ?thesis using that[of interpolate_nearest] by simp
  next
    case linear
    with F_interpolate_Inr[OF sizes(2) ne, of interpolate_linear]
    have "IdentityBasis_forward self theta x1 x2
        = Inr (?bc, map (interpolate_linear ?fs) ?knots)"
      by (simp add: IdentityBasis_forward_def)
    then show ?thesis using that[of interpolate_linear] by simp
  next
    case cubic
    from IdentityBasis_forward_cubic[OF cubic sizes(2) lt, of x1 x2]
    show ?thesis using that[of interpolate_bicubic] by simp
  qed
  from len have "\<forall>row\<in>set (map (kernel ?fs) ?knots). length row = ?fs" by simp
  with run bc el show ?thesis by simp
qed

lemma example_modes:
  "sublist ''cubic'' ''cubic-3''" "sublist ''cubic'' ''cubic-1''"
  "py_int (split_last ''cubic-3'') = Inr 3" "py_int (split_last ''cubic-1'') = Inr 1"
  by (simp_all add: sublist_code py_int_def split_last_def digit_def upt_conv_Cons)

theorem cubic_sub_batches_witness:
  "IdentityBasis_forward (example_basis ''cubic-1'') [[1, 2, 3, 4], [5, 6, 7, 8]] () ()
     = IdentityBasis_forward (example_basis ''cubic-3'') [[1, 2, 3, 4], [5, 6, 7, 8]] () ()"
proof -
  have rows: "\<forall>row\<in>set [[1, 2, 3, 4], [5, 6, 7, 8::real]].
      basis_backcast_size (example_basis ''cubic-3'') < length row"
    by (simp add: example_basis_def)
  show ?thesis
    by (rule cubic_sub_batches[of "example_basis ''cubic-3''" "example_basis ''cubic-1''" 3 1,
          OF _ _ _ _ _ _ _ _ _ rows, THEN conjunct1])
       (simp_all add: example_basis_def example_modes)
qed

theorem identity_basis_shapes_witness:
  "\<exists>backcast forecast.
       IdentityBasis_forward (example_basis ''cubic-3'') [[1, 2, 3, 4], [5, 6, 7, 8]] () ()
         = Inr (backcast, forecast)
     \<and> backcast = [[1, 2], [5, 6]]
     \<and> length forecast = 2 \<and> length (forecast ! 0) = 4 \<and> length (forecast ! 1) = 4"
proof -
  let ?self = "example_basis ''cubic-3''"
  let ?theta = "[[1, 2, 3, 4], [5, 6, 7, 8::real]]"
  have mode: "basis_interpolation_mode ?self = ''nearest''
      \<or> basis_interpolation_mode ?self = ''linear''
      \<or> (sublist ''cubic'' (basis_interpolation_mode ?self)
          \<and> (\<exists>batch_size>0. py_int (split_last (basis_interpolation_mode ?self))
                = Inr batch_size))"
    by (simp add: example_basis_def example_modes)
  have rows: "\<forall>row\<in>set ?theta. length row = basis_backcast_size ?self + 2"
    by (simp add: example_basis_def)
  have sizes: "0 < (2::nat)" "0 < basis_forecast_size ?self"
    by (simp_all add: example_basis_def)
  from identity_basis_shapes[OF mode rows sizes, of "()" "()"]
  obtain backcast forecast where
    run: "IdentityBasis_forward ?self ?theta () () = Inr (backcast, forecast)"
    and bc: "backcast = map (take (basis_backcast_size ?self)) ?theta"
    and len: "length forecast = length ?theta"
    and fc: "\<forall>row\<in>set forecast. length row = basis_forecast_size ?self"
    by blast
  from len fc have "length (forecast ! 0) = 4" "length (forecast ! 1) = 4"
    by (simp_all add: example_basis_def)
  with run bc len show ?thesis by (simp add: example_basis_def)
qed

end
